theory Spec2Isabelle
  imports Main
begin

section \<open>Values, references and options\<close>

text \<open>
  The module \<^verbatim>\<open>src/database/useDatabaseRef.ts\<close> is one function, \<^verbatim>\<open>_useDatabaseRef\<close>,
  with two closures (\<^verbatim>\<open>bindDatabaseRef\<close> and \<^verbatim>\<open>stop\<close>) over a handful of mutable
  variables and Vue refs. The model keeps those variables in a record, runs the body of the
  function as one state transformer, and runs everything that happens after the function has
  returned (the watcher firing, the binder settling the promise, promise reaction jobs, scope
  disposal) as events of a step function.

  Collaborators that live in other modules (\<^verbatim>\<open>getInitialValue\<close>, \<^verbatim>\<open>isSSR\<close>,
  \<^verbatim>\<open>checkWrittenTarget\<close>, \<^verbatim>\<open>bindAsArray\<close>, \<^verbatim>\<open>bindAsObject\<close>, the Vue scope functions) are
  parameters, collected in the record \<open>env\<close>; every call of a collaborator that has an
  effect is appended to a trace. \<open>watch_live\<close> says whether Vue's \<^verbatim>\<open>watch\<close> sets up a watcher:
  inside the setup of a component during a server render it does nothing and returns a
  handle that does nothing. The collaborators are taken to return normally, and the
  data ref is an extensible object, as a Vue ref is.
\<close>

text \<open>A \<^verbatim>\<open>DatabaseReference | Query\<close> handle. Both are objects, hence truthy.\<close>

datatype dbref = DatabaseReference nat | Query nat

text \<open>\<^verbatim>\<open>_Nullable<T> = T | null | undefined\<close>.\<close>

datatype 'a nullable = JNull | JUndefined | Present 'a

text \<open>
  \<^verbatim>\<open>_MaybeRef<T> = T | Ref<T>\<close>: the reference argument is a plain value or a Vue ref holding
  one; for a ref the model carries its current value.
\<close>

datatype maybe_ref = Plain "dbref nullable" | Reactive "dbref nullable"

fun unref :: "maybe_ref \<Rightarrow> dbref nullable" where
  "unref (Plain v) = v"
| "unref (Reactive v) = v"

fun isRef :: "maybe_ref \<Rightarrow> bool" where
  "isRef (Plain v) = False"
| "isRef (Reactive v) = True"

text \<open>
  The value held by the data ref (\<^verbatim>\<open>unknown | null\<close>). The code looks at it twice:
  \<^verbatim>\<open>data.value === undefined\<close> and \<^verbatim>\<open>Array.isArray(data.value)\<close>.
\<close>

datatype jsval = VUndefined | VNull | VArray "jsval list" | VOther nat

fun isArray :: "jsval \<Rightarrow> bool" where
  "isArray (VArray xs) = True"
| "isArray v = False"

type_synonym reason = nat
type_synonym pid = nat
type_synonym app = nat

text \<open>\<^verbatim>\<open>ResetOption = boolean | (() => unknown)\<close>.\<close>

datatype reset_option = ResetBool bool | ResetFn nat

text \<open>
  Objects a property getter can return: the four refs and the \<^verbatim>\<open>stop\<close> closure that one call
  of \<^verbatim>\<open>_useDatabaseRef\<close> owns, and objects from elsewhere (for instance the refs of an earlier
  call, reachable through the properties of a target that has been used before).
\<close>

datatype object_id = DataRef | ErrorRef | PendingRef | PromiseRef | StopFn | Foreign nat

text \<open>
  An own property of the data ref object: what reading it yields, and whether it may be
  redefined. \<^verbatim>\<open>Object.defineProperties\<close> creates properties that are not configurable.
\<close>

record property =
  prop_get :: object_id
  prop_configurable :: bool

text \<open>A ref passed in by the caller as \<^verbatim>\<open>options.target\<close>: its value and its own properties.\<close>

record target_ref =
  t_value :: jsval
  t_props :: "string \<rightharpoonup> property"

text \<open>
  A key of an options object: absent, present with the value \<^verbatim>\<open>undefined\<close>, or present with
  a value. Reading the key yields \<^verbatim>\<open>undefined\<close> (\<open>None\<close>) in the first two cases;
  \<^verbatim>\<open>Object.assign\<close> tells them apart.
\<close>

datatype 'a key = Absent | Undefined | Given 'a

fun value_of :: "'a key \<Rightarrow> 'a option" where
  "value_of (Given v) = Some v"
| "value_of k = None"

text \<open>
  \<^verbatim>\<open>UseDatabaseRefOptions\<close>. The function reads \<^verbatim>\<open>target\<close>, \<^verbatim>\<open>ssrKey\<close> and \<^verbatim>\<open>reset\<close> and
  writes \<^verbatim>\<open>once\<close>; the remaining keys, which only the binder reads, are kept in \<open>rest\<close>
  (their values are opaque).
\<close>

record options =
  target_key :: "target_ref key"
  once_key :: "bool key"
  ssrKey_key :: "string key"
  reset_key :: "reset_option key"
  rest :: "string \<rightharpoonup> nat"

text \<open>What \<^verbatim>\<open>options.target\<close>, \<^verbatim>\<open>options.once\<close>, \<^verbatim>\<open>options.ssrKey\<close> and \<^verbatim>\<open>options.reset\<close> read.\<close>

definition target :: "options \<Rightarrow> target_ref option" where
  "target os = value_of (target_key os)"

definition once :: "options \<Rightarrow> bool option" where
  "once os = value_of (once_key os)"

definition ssrKey :: "options \<Rightarrow> string option" where
  "ssrKey os = value_of (ssrKey_key os)"

definition reset :: "options \<Rightarrow> reset_option option" where
  "reset os = value_of (reset_key os)"

text \<open>
  \<^verbatim>\<open>Object.assign({}, globalDatabaseOptions, localOptions)\<close>: every own key of the second
  object is copied over the first, also when its value is \<^verbatim>\<open>undefined\<close>.
\<close>

fun assign_key :: "'a key \<Rightarrow> 'a key \<Rightarrow> 'a key" where
  "assign_key g Absent = g"
| "assign_key g l = l"

definition Object_assign :: "options \<Rightarrow> options \<Rightarrow> options" where
  "Object_assign g l =
     \<lparr> target_key = assign_key (target_key g) (target_key l),
       once_key = assign_key (once_key g) (once_key l),
       ssrKey_key = assign_key (ssrKey_key g) (ssrKey_key l),
       reset_key = assign_key (reset_key g) (reset_key l),
       rest = rest g ++ rest l \<rparr>"

section \<open>Promises, effects and the state of one call\<close>

datatype settle = Pending | Fulfilled jsval | Rejected reason

text \<open>
  One call of \<^verbatim>\<open>bindDatabaseRef\<close> builds a chain of three promises:
  \<^verbatim>\<open>new Promise(executor).catch(h).finally(f)\<close>. \<^verbatim>\<open>newPromise\<close> is the last of them. A chain
  is identified by its index in the list \<open>promises\<close> of the state.
\<close>

record bind_promise =
  executor :: settle
  caught :: settle
  chained :: settle

text \<open>The two functions that the executor of chain \<open>k\<close> receives.\<close>

datatype callback = ResolveOf pid | RejectOf pid

fun settles :: "callback \<Rightarrow> pid" where
  "settles (ResolveOf k) = k"
| "settles (RejectOf k) = k"

text \<open>
  The arguments of a call of \<^verbatim>\<open>bindAsArray\<close> or \<^verbatim>\<open>bindAsObject\<close>. The binder receives the data
  ref itself; \<open>b_data\<close> is the value the ref holds when the binder is called.
\<close>

record bind_args =
  b_target :: object_id
  b_data :: jsval
  b_reference :: dbref
  b_resolve :: callback
  b_reject :: callback
  b_options :: options

datatype effect =
    CallBindAsArray bind_args
  | CallBindAsObject bind_args
  | CallWatch
  | CallAddPendingPromise "pid option" dbref
  | CallOnScopeDispose
  | CallOnServerPrefetch
  | CallStopWatch
  | CallRemovePendingPromise "pid option" dbref
  | CallUnbind nat "reset_option option"
  | CallUndefined

text \<open>The values of the variables \<^verbatim>\<open>unbind\<close>, \<^verbatim>\<open>stopWatcher\<close> and \<^verbatim>\<open>removePendingPromise\<close>.\<close>

datatype unbind_fn = UNoop | UHandle nat
datatype stop_watcher_fn = SNoop | SWatch
datatype remove_fn = RNoop | RRemove "pid option" dbref

datatype watcher_state = NoWatcher | Active | Stopped

record env =
  globalDatabaseOptions :: options
  production :: bool
  checkWrittenTarget :: "target_ref \<Rightarrow> bool"
  isSSR :: bool
  getInitialValue :: "dbref nullable \<Rightarrow> string option \<Rightarrow> jsval \<Rightarrow> app \<Rightarrow> jsval"
  useFirebaseApp :: app
  getCurrentScope :: bool
  getCurrentInstance :: bool
  watch_live :: bool
  bindAsArray :: "bind_args \<Rightarrow> nat"
  bindAsObject :: "bind_args \<Rightarrow> nat"

record state =
  reference :: maybe_ref
  opts :: options
  data_value :: jsval
  data_props :: "string \<rightharpoonup> property"
  error_value :: "reason option"
  pending_value :: bool
  promise_value :: "pid option"
  shouldStartAsPending :: bool
  unbind :: "unbind_fn option"
  stopWatcher :: stop_watcher_fn
  removePendingPromise :: remove_fn
  watcher :: watcher_state
  scope_cleanup :: bool
  server_prefetch :: bool
  promises :: "bind_promise list"
  effects :: "effect list"

section \<open>The closures\<close>

text \<open>
  \<^verbatim>\<open>bindDatabaseRef\<close> (lines 83-125). The executor runs at once: with a falsy reference it
  sets \<^verbatim>\<open>unbind = noop\<close> and resolves with \<^verbatim>\<open>null\<close>; otherwise it writes \<^verbatim>\<open>pending\<close>,
  raises \<^verbatim>\<open>shouldStartAsPending\<close> and calls the binder, whose \<^verbatim>\<open>resolve\<close> and \<^verbatim>\<open>reject\<close>
  are those of the new chain. The last statement stores the new chain in \<^verbatim>\<open>promise\<close>.
  The reaction jobs of \<^verbatim>\<open>catch\<close> and \<^verbatim>\<open>finally\<close> run later, as events.
\<close>

definition bindDatabaseRef :: "env \<Rightarrow> state \<Rightarrow> state" where
  "bindDatabaseRef env s =
     (let newPromise = length (promises s) in
      case unref (reference s) of
        Present referenceValue \<Rightarrow>
          (let args = \<lparr> b_target = DataRef, b_data = data_value s,
                        b_reference = referenceValue,
                        b_resolve = ResolveOf newPromise, b_reject = RejectOf newPromise,
                        b_options = opts s \<rparr>
           in s \<lparr> pending_value := shouldStartAsPending s,
                  shouldStartAsPending := True,
                  unbind := Some (UHandle (if isArray (data_value s)
                                           then bindAsArray env args
                                           else bindAsObject env args)),
                  effects := effects s @ [if isArray (data_value s)
                                          then CallBindAsArray args
                                          else CallBindAsObject args],
                  promises := promises s @
                    [\<lparr> executor = Pending, caught = Pending, chained = Pending \<rparr>],
                  promise_value := Some newPromise \<rparr>)
      | _ \<Rightarrow>
          s \<lparr> unbind := Some UNoop,
              promises := promises s @
                [\<lparr> executor = Fulfilled VNull, caught = Pending, chained = Pending \<rparr>],
              promise_value := Some newPromise \<rparr>)"

text \<open>
  \<^verbatim>\<open>stop\<close> (lines 147-151). The default parameter applies when the argument is
  \<^verbatim>\<open>undefined\<close> (\<open>None\<close>). Calling \<^verbatim>\<open>noop\<close> does nothing.
\<close>

definition call_stopWatcher :: "state \<Rightarrow> state" where
  "call_stopWatcher s =
     (case stopWatcher s of
        SNoop \<Rightarrow> s
      | SWatch \<Rightarrow> s \<lparr> watcher := Stopped, effects := effects s @ [CallStopWatch] \<rparr>)"

definition call_removePendingPromise :: "state \<Rightarrow> state" where
  "call_removePendingPromise s =
     (case removePendingPromise s of
        RNoop \<Rightarrow> s
      | RRemove p r \<Rightarrow> s \<lparr> effects := effects s @ [CallRemovePendingPromise p r] \<rparr>)"

definition call_unbind :: "reset_option option \<Rightarrow> state \<Rightarrow> state" where
  "call_unbind r s =
     (case unbind s of
        None \<Rightarrow> s \<lparr> effects := effects s @ [CallUndefined] \<rparr>
      | Some UNoop \<Rightarrow> s
      | Some (UHandle h) \<Rightarrow> s \<lparr> effects := effects s @ [CallUnbind h r] \<rparr>)"

definition stop :: "reset_option option \<Rightarrow> state \<Rightarrow> state" where
  "stop r s =
     (let r' = (case r of None \<Rightarrow> reset (opts s) | Some v \<Rightarrow> Some v)
      in call_unbind r' (call_removePendingPromise (call_stopWatcher s)))"

section \<open>The function\<close>

text \<open>
  Lines 50-58: the development-only check of a target that has been used before. The result
  is the target that line 56 returns, if it does.
\<close>

definition written_target :: "env \<Rightarrow> options \<Rightarrow> target_ref option" where
  "written_target env os =
     (if production env then None
      else case target os of
             None \<Rightarrow> None
           | Some t \<Rightarrow> if checkWrittenTarget env t then Some t else None)"

text \<open>Line 47: \<^verbatim>\<open>options.target || ref()\<close>; a fresh ref holds \<^verbatim>\<open>undefined\<close>.\<close>

definition prior_value :: "options \<Rightarrow> jsval" where
  "prior_value os = (case target os of None \<Rightarrow> VUndefined | Some t \<Rightarrow> t_value t)"

definition prior_props :: "options \<Rightarrow> string \<rightharpoonup> property" where
  "prior_props os = (case target os of None \<Rightarrow> Map.empty | Some t \<Rightarrow> t_props t)"

text \<open>Lines 60-63.\<close>

definition ssr_once :: "env \<Rightarrow> options \<Rightarrow> options" where
  "ssr_once env os = (if isSSR env then os \<lparr> once_key := Given True \<rparr> else os)"

text \<open>Lines 65-81: the state in which the closures are created.\<close>

definition hydrate :: "env \<Rightarrow> maybe_ref \<Rightarrow> options \<Rightarrow> state" where
  "hydrate env ref os =
     (let v = getInitialValue env (unref ref) (ssrKey os) (prior_value os) (useFirebaseApp env)
      in \<lparr> reference = ref, opts = os, data_value = v, data_props = prior_props os,
           error_value = None, pending_value = False, promise_value = None,
           shouldStartAsPending = (v = VUndefined),
           unbind = None, stopWatcher = SNoop, removePendingPromise = RNoop,
           watcher = NoWatcher, scope_cleanup = False, server_prefetch = False,
           promises = [], effects = [] \<rparr>)"

text \<open>
  Lines 127-130. Where \<^verbatim>\<open>watch\<close> does nothing, the handle it returns is a function that does
  nothing, like \<^verbatim>\<open>noop\<close>.
\<close>

definition install_watcher :: "env \<Rightarrow> state \<Rightarrow> state" where
  "install_watcher env s =
     (if isRef (reference s)
      then (if watch_live env
            then s \<lparr> stopWatcher := SWatch, watcher := Active,
                     effects := effects s @ [CallWatch] \<rparr>
            else s \<lparr> effects := effects s @ [CallWatch] \<rparr>)
      else s)"

text \<open>Lines 133-136.\<close>

definition register_pending :: "dbref nullable \<Rightarrow> state \<Rightarrow> state" where
  "register_pending initialSourceValue s =
     (case initialSourceValue of
        Present r \<Rightarrow>
          s \<lparr> removePendingPromise := RRemove (promise_value s) r,
              effects := effects s @ [CallAddPendingPromise (promise_value s) r] \<rparr>
      | _ \<Rightarrow> s)"

text \<open>Lines 138-145.\<close>

definition register_scope :: "env \<Rightarrow> state \<Rightarrow> state" where
  "register_scope env s =
     (if getCurrentScope env
      then (let s1 = s \<lparr> scope_cleanup := True, effects := effects s @ [CallOnScopeDispose] \<rparr>
            in if getCurrentInstance env
               then s1 \<lparr> server_prefetch := True,
                         effects := effects s1 @ [CallOnServerPrefetch] \<rparr>
               else s1)
      else s)"

text \<open>
  Lines 155-162. \<^verbatim>\<open>Object.defineProperties\<close> defines the five accessors in order and raises
  a TypeError at the first name that is already an own property and not configurable (the
  getters are new closures, so the descriptors differ); the names before it stay defined. A
  new property is not configurable; a redefined one keeps its flag. The data ref is taken to
  be extensible, as a Vue ref is.
\<close>

datatype error = TypeError

definition accessors :: "(string \<times> object_id) list" where
  "accessors = [(''data'', DataRef), (''error'', ErrorRef), (''pending'', PendingRef),
                (''promise'', PromiseRef), (''stop'', StopFn)]"

definition redefinable :: "(string \<rightharpoonup> property) \<Rightarrow> string \<Rightarrow> bool" where
  "redefinable ps n = (case ps n of None \<Rightarrow> True | Some p \<Rightarrow> prop_configurable p)"

definition defineProperty :: "string \<times> object_id \<Rightarrow> (string \<rightharpoonup> property) \<Rightarrow> (string \<rightharpoonup> property)" where
  "defineProperty d ps =
     ps (fst d \<mapsto> \<lparr> prop_get = snd d,
                     prop_configurable = (case ps (fst d) of None \<Rightarrow> False
                                          | Some p \<Rightarrow> prop_configurable p) \<rparr>)"

fun defineProperties ::
  "(string \<rightharpoonup> property) \<Rightarrow> (string \<times> object_id) list
     \<Rightarrow> (error \<times> (string \<rightharpoonup> property)) + (string \<rightharpoonup> property)" where
  "defineProperties ps [] = Inr ps"
| "defineProperties ps (d # ds) =
     (if redefinable ps (fst d) then defineProperties (defineProperty d ps) ds
      else Inl (TypeError, ps))"

text \<open>
  The three ways a call ends: the early return of line 56, which hands the target back as it
  is and sets nothing up; a TypeError of line 155, after everything has been set up and with
  the accessors defined so far; the return of line 155.
\<close>

datatype outcome = ReturnedTarget target_ref | Thrown error state | Returned state

text \<open>Lines 60-151, the straight line between the check and the final statement.\<close>

definition set_up :: "env \<Rightarrow> maybe_ref \<Rightarrow> options \<Rightarrow> state" where
  "set_up env ref os =
     register_scope env
       (register_pending (unref ref)
         (bindDatabaseRef env
           (install_watcher env (hydrate env ref (ssr_once env os)))))"

definition useDatabaseRef :: "env \<Rightarrow> maybe_ref \<Rightarrow> options \<Rightarrow> outcome" where
  "useDatabaseRef env ref localOptions =
     (let os = Object_assign (globalDatabaseOptions env) localOptions
      in case written_target env os of
           Some t \<Rightarrow> ReturnedTarget t
         | None \<Rightarrow>
           (let s = set_up env ref os
            in case defineProperties (data_props s) accessors of
                 Inl (e, ps) \<Rightarrow> Thrown e (s \<lparr> data_props := ps \<rparr>)
               | Inr ps \<Rightarrow> Returned (s \<lparr> data_props := ps \<rparr>)))"

text \<open>What a caller can observe of an outcome.\<close>

fun final_state :: "outcome \<Rightarrow> state option" where
  "final_state (ReturnedTarget t) = None"
| "final_state (Thrown e s) = Some s"
| "final_state (Returned s) = Some s"

fun thrown :: "outcome \<Rightarrow> error option" where
  "thrown (ReturnedTarget t) = None"
| "thrown (Thrown e s) = Some e"
| "thrown (Returned s) = None"

fun returned_props :: "outcome \<Rightarrow> string \<rightharpoonup> property" where
  "returned_props (ReturnedTarget t) = t_props t"
| "returned_props (Thrown e s) = Map.empty"
| "returned_props (Returned s) = data_props s"

definition read_property :: "outcome \<Rightarrow> string \<Rightarrow> object_id option" where
  "read_property r n = map_option prop_get (returned_props r n)"

fun data_value_after :: "outcome \<Rightarrow> jsval" where
  "data_value_after (ReturnedTarget t) = t_value t"
| "data_value_after (Thrown e s) = data_value s"
| "data_value_after (Returned s) = data_value s"

fun effects_of :: "outcome \<Rightarrow> effect list" where
  "effects_of (ReturnedTarget t) = []"
| "effects_of (Thrown e s) = effects s"
| "effects_of (Returned s) = effects s"

section \<open>After the call\<close>

text \<open>
  What can happen once the function has returned. A change of the reference ref runs the
  watcher's callback while the watcher is active (Vue calls it only when the value differs).
  The binder settles a chain through \<^verbatim>\<open>resolve\<close> or \<^verbatim>\<open>reject\<close>; only the first call counts.
  \<open>RunCatch\<close> is the reaction job of \<^verbatim>\<open>.catch\<close> (lines 110-115; a fulfilment passes through),
  \<open>RunFinally\<close> that of \<^verbatim>\<open>.finally\<close> (lines 116-121), after which \<^verbatim>\<open>newPromise\<close> is settled
  like the promise before it. \<open>Resolve k v\<close> and \<open>Reject k r\<close> are the binder calling
  \<open>ResolveOf k\<close> and \<open>RejectOf k\<close>. A binder that calls them inside the executor is the event
  right after the bind: the jobs run only after the synchronous code. A scope is disposed of
  once: it runs the functions registered with \<^verbatim>\<open>onScopeDispose\<close> and forgets them.
\<close>

datatype event =
    ReferenceChange "dbref nullable"
  | DataWrite jsval
  | Resolve pid jsval
  | Reject pid reason
  | RunCatch pid
  | RunFinally pid
  | ScopeDispose
  | Stop "reset_option option"

definition settle_executor :: "pid \<Rightarrow> settle \<Rightarrow> state \<Rightarrow> state" where
  "settle_executor k r s =
     (if k < length (promises s) \<and> executor (promises s ! k) = Pending
      then s \<lparr> promises := (promises s) [k := (promises s ! k) \<lparr> executor := r \<rparr>] \<rparr>
      else s)"

definition run_catch :: "pid \<Rightarrow> state \<Rightarrow> state" where
  "run_catch k s =
     (if k < length (promises s) \<and> caught (promises s ! k) = Pending
      then (case executor (promises s ! k) of
              Pending \<Rightarrow> s
            | Fulfilled v \<Rightarrow>
                s \<lparr> promises := (promises s) [k := (promises s ! k) \<lparr> caught := Fulfilled v \<rparr>] \<rparr>
            | Rejected reason \<Rightarrow>
                s \<lparr> error_value := (if promise_value s = Some k then Some reason
                                     else error_value s),
                    promises := (promises s) [k := (promises s ! k) \<lparr> caught := Rejected reason \<rparr>] \<rparr>)
      else s)"

definition run_finally :: "pid \<Rightarrow> state \<Rightarrow> state" where
  "run_finally k s =
     (if k < length (promises s) \<and> chained (promises s ! k) = Pending
         \<and> caught (promises s ! k) \<noteq> Pending
      then s \<lparr> pending_value := (if promise_value s = Some k then False else pending_value s),
                promises := (promises s)
                  [k := (promises s ! k) \<lparr> chained := caught (promises s ! k) \<rparr>] \<rparr>
      else s)"

fun step :: "env \<Rightarrow> event \<Rightarrow> state \<Rightarrow> state" where
  "step env (ReferenceChange v) s =
     (if isRef (reference s) \<and> v \<noteq> unref (reference s)
      then (if watcher s = Active
            then bindDatabaseRef env (s \<lparr> reference := Reactive v \<rparr>)
            else s \<lparr> reference := Reactive v \<rparr>)
      else s)"
| "step env (DataWrite v) s = s \<lparr> data_value := v \<rparr>"
| "step env (Resolve k v) s = settle_executor k (Fulfilled v) s"
| "step env (Reject k r) s = settle_executor k (Rejected r) s"
| "step env (RunCatch k) s = run_catch k s"
| "step env (RunFinally k) s = run_finally k s"
| "step env ScopeDispose s =
     (if scope_cleanup s then (stop None s) \<lparr> scope_cleanup := False \<rparr> else s)"
| "step env (Stop r) s = stop r s"

fun run :: "env \<Rightarrow> event list \<Rightarrow> state \<Rightarrow> state" where
  "run env [] s = s"
| "run env (e # es) s = run env es (step env e s)"

text \<open>The promise that the callback given to \<^verbatim>\<open>onServerPrefetch\<close> returns when it is called.\<close>

definition prefetch_promise :: "state \<Rightarrow> pid option" where
  "prefetch_promise s = (if server_prefetch s then promise_value s else None)"

text \<open>The state some events after a call, when the call has set one up.\<close>

definition after :: "env \<Rightarrow> event list \<Rightarrow> outcome \<Rightarrow> state option" where
  "after env es r = map_option (run env es) (final_state r)"

text \<open>Reading the trace.\<close>

fun is_watch :: "effect \<Rightarrow> bool" where
  "is_watch CallWatch = True"
| "is_watch e = False"

fun is_binder :: "effect \<Rightarrow> bool" where
  "is_binder (CallBindAsArray a) = True"
| "is_binder (CallBindAsObject a) = True"
| "is_binder e = False"

fun is_bindAsArray :: "effect \<Rightarrow> bool" where
  "is_bindAsArray (CallBindAsArray a) = True"
| "is_bindAsArray e = False"



fun is_addPendingPromise :: "effect \<Rightarrow> bool" where
  "is_addPendingPromise (CallAddPendingPromise p r) = True"
| "is_addPendingPromise e = False"

fun binder_calls :: "effect list \<Rightarrow> bind_args list" where
  "binder_calls [] = []"
| "binder_calls (CallBindAsArray a # es) = a # binder_calls es"
| "binder_calls (CallBindAsObject a # es) = a # binder_calls es"
| "binder_calls (e # es) = binder_calls es"

fun binds_once :: "effect \<Rightarrow> bool" where
  "binds_once (CallBindAsArray a) = (once (b_options a) = Some True)"
| "binds_once (CallBindAsObject a) = (once (b_options a) = Some True)"
| "binds_once e = True"

text \<open>The chain an event settles or advances; the events that call \<^verbatim>\<open>stop\<close>.\<close>

fun chain_of :: "event \<Rightarrow> pid option" where
  "chain_of (Resolve k v) = Some k"
| "chain_of (Reject k r) = Some k"
| "chain_of (RunCatch k) = Some k"
| "chain_of (RunFinally k) = Some k"
| "chain_of e = None"

fun is_stop :: "event \<Rightarrow> bool" where
  "is_stop ScopeDispose = True"
| "is_stop (Stop r) = True"
| "is_stop e = False"


section \<open>Consistency of the promise chains\<close>

text \<open>
  What every state a call can reach satisfies: a settled link of a chain is settled like the
  link before it; the chain stored in \<^verbatim>\<open>promise\<close> exists, and if its \<^verbatim>\<open>catch\<close> job has
  seen a rejection, \<^verbatim>\<open>error\<close> holds the reason.
\<close>

definition chain_ok :: "bind_promise \<Rightarrow> bool" where
  "chain_ok p = ((caught p = Pending \<or> caught p = executor p)
                 \<and> (chained p = Pending \<or> chained p = caught p))"

fun recorded :: "settle \<Rightarrow> reason option \<Rightarrow> bool" where
  "recorded (Rejected r) e = (e = Some r)"
| "recorded x e = True"

fun current_ok :: "pid option \<Rightarrow> bind_promise list \<Rightarrow> reason option \<Rightarrow> bool" where
  "current_ok None ps e = True"
| "current_ok (Some k) ps e = (k < length ps \<and> recorded (caught (ps ! k)) e)"

definition consistent :: "state \<Rightarrow> bool" where
  "consistent s = (list_all chain_ok (promises s)
                   \<and> current_ok (promise_value s) (promises s) (error_value s))"





text \<open>On the server every binder call so far was made with \<^verbatim>\<open>once\<close>, and so will the next.\<close>

definition once_forced :: "state \<Rightarrow> bool" where
  "once_forced s = (once (opts s) = Some True \<and> list_all binds_once (effects s))"

section \<open>Example inputs\<close>

definition no_options :: options where
  "no_options =
     \<lparr> target_key = Absent, once_key = Absent, ssrKey_key = Absent, reset_key = Absent,
       rest = Map.empty \<rparr>"

text \<open>
  A \<^verbatim>\<open>getInitialValue\<close> whose server snapshot holds a list for reference 7 and nothing
  else; without a snapshot it hands the fallback back.
\<close>

definition snapshot :: "dbref nullable \<Rightarrow> string option \<Rightarrow> jsval \<Rightarrow> app \<Rightarrow> jsval" where
  "snapshot src key fallback a =
     (case src of
        Present (DatabaseReference n) \<Rightarrow> if n = 7 then VArray [VOther 1] else fallback
      | _ \<Rightarrow> fallback)"

text \<open>
  A production build in the browser, inside a component. \<^verbatim>\<open>checkWrittenTarget\<close> looks for
  a \<^verbatim>\<open>data\<close> getter that returns the target itself. The binders number their handles by
  the chain they are called for.
\<close>

definition client_env :: env where
  "client_env =
     \<lparr> globalDatabaseOptions = no_options \<lparr> reset_key := Given (ResetBool False) \<rparr>,
       production = True,
       checkWrittenTarget = (\<lambda>t. map_option prop_get (t_props t ''data'') = Some DataRef),
       isSSR = False,
       getInitialValue = snapshot,
       useFirebaseApp = 0,
       getCurrentScope = True,
       getCurrentInstance = True,
       watch_live = True,
       bindAsArray = (\<lambda>a. 2 * settles (b_resolve a)),
       bindAsObject = (\<lambda>a. 2 * settles (b_resolve a) + 1) \<rparr>"

definition dev_env :: env where
  "dev_env = client_env \<lparr> production := False \<rparr>"

text \<open>
  A server render outside the setup of a component, inside an effect scope, where
  \<^verbatim>\<open>watch\<close> is live; and a server render inside the setup of a component, where it is not.
\<close>

definition ssr_env :: env where
  "ssr_env = client_env \<lparr> isSSR := True, getCurrentInstance := False \<rparr>"

definition ssr_setup_env :: env where
  "ssr_setup_env = client_env \<lparr> isSSR := True, watch_live := False \<rparr>"

text \<open>
  A target that an earlier call has returned, and one that is new. The first carries the five
  accessors of the earlier call, none of them configurable: its \<^verbatim>\<open>data\<close> getter returns the
  target itself, which is the data ref of any call it is passed to, the others return the
  refs and the stop function of the earlier call.
\<close>

definition used_target :: target_ref where
  "used_target =
     \<lparr> t_value = VOther 5,
       t_props = [''data'' \<mapsto> \<lparr> prop_get = DataRef, prop_configurable = False \<rparr>,
                  ''error'' \<mapsto> \<lparr> prop_get = Foreign 1, prop_configurable = False \<rparr>,
                  ''pending'' \<mapsto> \<lparr> prop_get = Foreign 2, prop_configurable = False \<rparr>,
                  ''promise'' \<mapsto> \<lparr> prop_get = Foreign 3, prop_configurable = False \<rparr>,
                  ''stop'' \<mapsto> \<lparr> prop_get = Foreign 4, prop_configurable = False \<rparr>] \<rparr>"

definition new_target :: target_ref where
  "new_target = \<lparr> t_value = VOther 5, t_props = Map.empty \<rparr>"

definition with_target :: "target_ref \<Rightarrow> options" where
  "with_target t = no_options \<lparr> target_key := Given t \<rparr>"

text \<open>A ref to a list that the server has rendered, a ref to a query, a ref holding null.\<close>

definition list_ref :: maybe_ref where
  "list_ref = Reactive (Present (DatabaseReference 7))"

definition query_ref :: maybe_ref where
  "query_ref = Reactive (Present (Query 3))"

definition null_ref :: maybe_ref where
  "null_ref = Reactive JNull"

text \<open>
  A caller that asks for a live binding, and one that passes \<^verbatim>\<open>reset: undefined\<close>.
\<close>

definition live_options :: options where
  "live_options = no_options \<lparr> once_key := Given False \<rparr>"

definition undefined_reset :: options where
  "undefined_reset = no_options \<lparr> reset_key := Undefined \<rparr>"

section \<open>Proof tools\<close>

lemmas ex_defs = no_options_def snapshot_def client_env_def dev_env_def ssr_env_def
  ssr_setup_env_def used_target_def new_target_def with_target_def list_ref_def
  query_ref_def null_ref_def live_options_def undefined_reset_def

lemmas read_defs = target_def once_def ssrKey_def reset_def

lemmas call_defs = set_up_def register_scope_def register_pending_def bindDatabaseRef_def
  install_watcher_def hydrate_def ssr_once_def Object_assign_def prior_value_def
  prior_props_def target_def once_def ssrKey_def reset_def

lemmas event_defs = settle_executor_def run_catch_def run_finally_def stop_def
  call_unbind_def call_removePendingPromise_def call_stopWatcher_def

section \<open>Basic facts\<close>

lemma bind_present:
  "unref (reference s) = Present r \<Longrightarrow>
   bindDatabaseRef env s =
     s \<lparr> pending_value := shouldStartAsPending s,
         shouldStartAsPending := True,
         unbind := Some (UHandle (if isArray (data_value s)
            then bindAsArray env \<lparr> b_target = DataRef, b_data = data_value s,
                        b_reference = r, b_resolve = ResolveOf (length (promises s)),
                        b_reject = RejectOf (length (promises s)), b_options = opts s \<rparr>
            else bindAsObject env \<lparr> b_target = DataRef, b_data = data_value s,
                        b_reference = r, b_resolve = ResolveOf (length (promises s)),
                        b_reject = RejectOf (length (promises s)), b_options = opts s \<rparr>)),
         effects := effects s @ [if isArray (data_value s)
            then CallBindAsArray \<lparr> b_target = DataRef, b_data = data_value s,
                        b_reference = r, b_resolve = ResolveOf (length (promises s)),
                        b_reject = RejectOf (length (promises s)), b_options = opts s \<rparr>
            else CallBindAsObject \<lparr> b_target = DataRef, b_data = data_value s,
                        b_reference = r, b_resolve = ResolveOf (length (promises s)),
                        b_reject = RejectOf (length (promises s)), b_options = opts s \<rparr>],
         promises := promises s @ [\<lparr> executor = Pending, caught = Pending, chained = Pending \<rparr>],
         promise_value := Some (length (promises s)) \<rparr>"
  by (simp add: bindDatabaseRef_def Let_def)

lemma bind_absent:
  "unref (reference s) = JNull \<or> unref (reference s) = JUndefined \<Longrightarrow>
   bindDatabaseRef env s =
     s \<lparr> unbind := Some UNoop,
         promises := promises s @
           [\<lparr> executor = Fulfilled VNull, caught = Pending, chained = Pending \<rparr>],
         promise_value := Some (length (promises s)) \<rparr>"
  by (auto simp add: bindDatabaseRef_def Let_def)

text \<open>What a bind leaves alone.\<close>

lemma bind_frame:
  "opts (bindDatabaseRef env s) = opts s"
  "reference (bindDatabaseRef env s) = reference s"
  "data_value (bindDatabaseRef env s) = data_value s"
  "data_props (bindDatabaseRef env s) = data_props s"
  "error_value (bindDatabaseRef env s) = error_value s"
  "stopWatcher (bindDatabaseRef env s) = stopWatcher s"
  "removePendingPromise (bindDatabaseRef env s) = removePendingPromise s"
  "watcher (bindDatabaseRef env s) = watcher s"
  "scope_cleanup (bindDatabaseRef env s) = scope_cleanup s"
  "server_prefetch (bindDatabaseRef env s) = server_prefetch s"
  "promise_value (bindDatabaseRef env s) = Some (length (promises s))"
  "length (promises (bindDatabaseRef env s)) = Suc (length (promises s))"
  "take (length (promises s)) (promises (bindDatabaseRef env s)) = promises s"
  by (cases "unref (reference s)"; simp add: bind_present bind_absent)+

lemma stop_frame:
  "opts (stop r s) = opts s"
  "reference (stop r s) = reference s"
  "data_value (stop r s) = data_value s"
  "data_props (stop r s) = data_props s"
  "error_value (stop r s) = error_value s"
  "pending_value (stop r s) = pending_value s"
  "promise_value (stop r s) = promise_value s"
  "shouldStartAsPending (stop r s) = shouldStartAsPending s"
  "unbind (stop r s) = unbind s"
  "stopWatcher (stop r s) = stopWatcher s"
  "removePendingPromise (stop r s) = removePendingPromise s"
  "scope_cleanup (stop r s) = scope_cleanup s"
  "server_prefetch (stop r s) = server_prefetch s"
  "promises (stop r s) = promises s"
  by (simp_all add: stop_def call_unbind_def call_removePendingPromise_def
      call_stopWatcher_def Let_def
      split: option.split unbind_fn.split remove_fn.split stop_watcher_fn.split)

lemma chain_frame:
  "opts (settle_executor k x s) = opts s"
  "opts (run_catch k s) = opts s"
  "opts (run_finally k s) = opts s"
  "reference (settle_executor k x s) = reference s"
  "reference (run_catch k s) = reference s"
  "reference (run_finally k s) = reference s"
  "effects (settle_executor k x s) = effects s"
  "effects (run_catch k s) = effects s"
  "effects (run_finally k s) = effects s"
  "promise_value (settle_executor k x s) = promise_value s"
  "promise_value (run_catch k s) = promise_value s"
  "promise_value (run_finally k s) = promise_value s"
  "watcher (settle_executor k x s) = watcher s"
  "watcher (run_catch k s) = watcher s"
  "watcher (run_finally k s) = watcher s"
  "length (promises (settle_executor k x s)) = length (promises s)"
  "length (promises (run_catch k s)) = length (promises s)"
  "length (promises (run_finally k s)) = length (promises s)"
  by (simp_all add: settle_executor_def run_catch_def run_finally_def split: settle.split)

lemma chain_frame2:
  "unbind (settle_executor k x s) = unbind s"
  "unbind (run_catch k s) = unbind s"
  "unbind (run_finally k s) = unbind s"
  "stopWatcher (settle_executor k x s) = stopWatcher s"
  "stopWatcher (run_catch k s) = stopWatcher s"
  "stopWatcher (run_finally k s) = stopWatcher s"
  "removePendingPromise (settle_executor k x s) = removePendingPromise s"
  "removePendingPromise (run_catch k s) = removePendingPromise s"
  "removePendingPromise (run_finally k s) = removePendingPromise s"
  "scope_cleanup (settle_executor k x s) = scope_cleanup s"
  "scope_cleanup (run_catch k s) = scope_cleanup s"
  "scope_cleanup (run_finally k s) = scope_cleanup s"
  "server_prefetch (settle_executor k x s) = server_prefetch s"
  "server_prefetch (run_catch k s) = server_prefetch s"
  "server_prefetch (run_finally k s) = server_prefetch s"
  "data_value (settle_executor k x s) = data_value s"
  "data_value (run_catch k s) = data_value s"
  "data_value (run_finally k s) = data_value s"
  by (simp_all add: settle_executor_def run_catch_def run_finally_def split: settle.split)

text \<open>No event touches the options, the registrations or the two handles.\<close>

lemma step_frame:
  "opts (step env e s) = opts s"
  "stopWatcher (step env e s) = stopWatcher s"
  "removePendingPromise (step env e s) = removePendingPromise s"
  "server_prefetch (step env e s) = server_prefetch s"
  "isRef (reference (step env e s)) = isRef (reference s)"
  by (cases e; simp add: bind_frame stop_frame chain_frame chain_frame2)+

lemma run_frame:
  "opts (run env es s) = opts s"
  "stopWatcher (run env es s) = stopWatcher s"
  "removePendingPromise (run env es s) = removePendingPromise s"
  "server_prefetch (run env es s) = server_prefetch s"
  "isRef (reference (run env es s)) = isRef (reference s)"
  by (induction es arbitrary: s; simp add: step_frame)+

text \<open>The state a call leaves behind, up to the properties of the data ref.\<close>

lemma final_state_set_up:
  assumes "final_state (useDatabaseRef env ref lo) = Some s"
  shows "\<exists>ps. s = (set_up env ref (Object_assign (globalDatabaseOptions env) lo))
                     \<lparr> data_props := ps \<rparr>"
proof -
  let ?s = "set_up env ref (Object_assign (globalDatabaseOptions env) lo)"
  have "s = ?s \<or> (\<exists>ps. s = ?s \<lparr> data_props := ps \<rparr>)"
    using assms
    by (auto simp add: useDatabaseRef_def Let_def split: option.splits sum.splits)
  moreover have "?s = ?s \<lparr> data_props := data_props ?s \<rparr>" by simp
  ultimately show ?thesis by metis
qed

lemma set_up_final_state:
  assumes "written_target env (Object_assign (globalDatabaseOptions env) lo) = None"
  shows "\<exists>s. final_state (useDatabaseRef env ref lo) = Some s"
  using assms by (simp add: useDatabaseRef_def Let_def split: sum.split)

lemma early_return_final_state:
  assumes "written_target env (Object_assign (globalDatabaseOptions env) lo) = Some t"
  shows "useDatabaseRef env ref lo = ReturnedTarget t"
  using assms by (simp add: useDatabaseRef_def Let_def)

lemma ssr_once_frame:
  "target (ssr_once env os) = target os"
  "ssrKey (ssr_once env os) = ssrKey os"
  "reset (ssr_once env os) = reset os"
  "rest (ssr_once env os) = rest os"
  "prior_value (ssr_once env os) = prior_value os"
  "prior_props (ssr_once env os) = prior_props os"
  by (simp_all add: ssr_once_def prior_value_def prior_props_def read_defs)

lemma register_frame:
  "data_value (register_scope env s) = data_value s"
  "data_props (register_scope env s) = data_props s"
  "opts (register_scope env s) = opts s"
  "promises (register_scope env s) = promises s"
  "promise_value (register_scope env s) = promise_value s"
  "watcher (register_scope env s) = watcher s"
  "reference (register_scope env s) = reference s"
  "removePendingPromise (register_scope env s) = removePendingPromise s"
  "unbind (register_scope env s) = unbind s"
  "stopWatcher (register_scope env s) = stopWatcher s"
  "data_value (register_pending v s) = data_value s"
  "data_props (register_pending v s) = data_props s"
  "opts (register_pending v s) = opts s"
  "promises (register_pending v s) = promises s"
  "promise_value (register_pending v s) = promise_value s"
  "watcher (register_pending v s) = watcher s"
  "reference (register_pending v s) = reference s"
  "unbind (register_pending v s) = unbind s"
  "stopWatcher (register_pending v s) = stopWatcher s"
  "scope_cleanup (register_pending v s) = scope_cleanup s"
  "server_prefetch (register_pending v s) = server_prefetch s"
  by (simp_all add: register_scope_def register_pending_def Let_def split: nullable.split)

lemma install_frame:
  "data_value (install_watcher env s) = data_value s"
  "data_props (install_watcher env s) = data_props s"
  "opts (install_watcher env s) = opts s"
  "promises (install_watcher env s) = promises s"
  "promise_value (install_watcher env s) = promise_value s"
  "reference (install_watcher env s) = reference s"
  "removePendingPromise (install_watcher env s) = removePendingPromise s"
  "scope_cleanup (install_watcher env s) = scope_cleanup s"
  "server_prefetch (install_watcher env s) = server_prefetch s"
  "shouldStartAsPending (install_watcher env s) = shouldStartAsPending s"
  "pending_value (install_watcher env s) = pending_value s"
  "error_value (install_watcher env s) = error_value s"
  "unbind (install_watcher env s) = unbind s"
  by (simp_all add: install_watcher_def)

lemma set_up_frame:
  "data_value (set_up env ref os) =
     getInitialValue env (unref ref) (ssrKey os) (prior_value os) (useFirebaseApp env)"
  "data_props (set_up env ref os) = prior_props os"
  "opts (set_up env ref os) = ssr_once env os"
  by (simp_all add: set_up_def register_frame bind_frame install_frame ssr_once_frame)
     (simp_all add: hydrate_def Let_def ssr_once_frame)

section \<open>The returned value\<close>

lemma defined_accessors:
  "map_option prop_get (fold defineProperty accessors ps ''data'') = Some DataRef"
  "map_option prop_get (fold defineProperty accessors ps ''error'') = Some ErrorRef"
  "map_option prop_get (fold defineProperty accessors ps ''pending'') = Some PendingRef"
  "map_option prop_get (fold defineProperty accessors ps ''promise'') = Some PromiseRef"
  "map_option prop_get (fold defineProperty accessors ps ''stop'') = Some StopFn"
  by (simp_all add: accessors_def defineProperty_def)

lemma other_properties:
  "n \<notin> {''data'', ''error'', ''pending'', ''promise'', ''stop''} \<Longrightarrow>
   fold defineProperty accessors ps n = ps n"
  by (simp add: accessors_def defineProperty_def)

text \<open>
  C1 (as amended). A call that does not leave through the development-only return of line 56,
  and whose data ref has none of the names \<^verbatim>\<open>data\<close>, \<^verbatim>\<open>error\<close>, \<^verbatim>\<open>pending\<close>,
  \<^verbatim>\<open>promise\<close>, \<^verbatim>\<open>stop\<close> as an own property that is not configurable, returns the data ref
  with exactly these five accessors added: reading \<^verbatim>\<open>data\<close> yields the data ref, \<^verbatim>\<open>error\<close>
  the error ref, \<^verbatim>\<open>pending\<close> the pending ref, \<^verbatim>\<open>promise\<close> the promise ref and \<^verbatim>\<open>stop\<close>
  the stop function; every other property of the data ref is as it was.
\<close>

theorem returned_accessors:
  assumes "written_target env (Object_assign (globalDatabaseOptions env) lo) = None"
    and "\<forall>n \<in> {''data'', ''error'', ''pending'', ''promise'', ''stop''}.
           redefinable (prior_props (Object_assign (globalDatabaseOptions env) lo)) n"
  shows "(\<exists>s. useDatabaseRef env ref lo = Returned s)
       \<and> read_property (useDatabaseRef env ref lo) ''data'' = Some DataRef
       \<and> read_property (useDatabaseRef env ref lo) ''error'' = Some ErrorRef
       \<and> read_property (useDatabaseRef env ref lo) ''pending'' = Some PendingRef
       \<and> read_property (useDatabaseRef env ref lo) ''promise'' = Some PromiseRef
       \<and> read_property (useDatabaseRef env ref lo) ''stop'' = Some StopFn
       \<and> (\<forall>n. n \<notin> {''data'', ''error'', ''pending'', ''promise'', ''stop''} \<longrightarrow>
             returned_props (useDatabaseRef env ref lo) n
               = prior_props (Object_assign (globalDatabaseOptions env) lo) n)"
proof -
  let ?os = "Object_assign (globalDatabaseOptions env) lo"
  let ?s = "set_up env ref ?os"
  have d: "defineProperties (data_props ?s) accessors
             = Inr (fold defineProperty accessors (prior_props ?os))"
    using assms(2) by (simp add: set_up_frame accessors_def redefinable_def defineProperty_def)
  have u: "useDatabaseRef env ref lo
             = Returned (?s \<lparr> data_props := fold defineProperty accessors (prior_props ?os) \<rparr>)"
    using assms(1) d by (simp add: useDatabaseRef_def Let_def)
  show ?thesis
    unfolding u read_property_def
    by (simp add: defined_accessors other_properties del: insert_iff)
qed

text \<open>A call in a production build, without a target.\<close>

theorem returned_accessors_witness:
  "read_property (useDatabaseRef client_env list_ref no_options) ''data'' = Some DataRef
   \<and> read_property (useDatabaseRef client_env list_ref no_options) ''error'' = Some ErrorRef
   \<and> read_property (useDatabaseRef client_env list_ref no_options) ''pending'' = Some PendingRef
   \<and> read_property (useDatabaseRef client_env list_ref no_options) ''promise'' = Some PromiseRef
   \<and> read_property (useDatabaseRef client_env list_ref no_options) ''stop'' = Some StopFn
   \<and> returned_props (useDatabaseRef client_env list_ref no_options) ''value'' = None"
proof -
  have g: "written_target client_env
             (Object_assign (globalDatabaseOptions client_env) no_options) = None"
    by (simp add: written_target_def client_env_def)
  have p: "prior_props (Object_assign (globalDatabaseOptions client_env) no_options) = Map.empty"
    by (simp add: prior_props_def Object_assign_def client_env_def no_options_def read_defs)
  have r: "\<forall>n \<in> {''data'', ''error'', ''pending'', ''promise'', ''stop''}.
           redefinable (prior_props (Object_assign (globalDatabaseOptions client_env) no_options)) n"
    unfolding p by (simp add: redefinable_def)
  have "''value'' \<notin> {''data'', ''error'', ''pending'', ''promise'', ''stop''}" by simp
  with returned_accessors [OF g r, of list_ref] p show ?thesis by metis
qed

text \<open>
  C1 as stated fails for a target that an earlier call has returned. In a development build
  line 56 hands the target back untouched, so that its \<^verbatim>\<open>error\<close> accessor still yields the
  error ref of the earlier call; in a production build line 155 raises a TypeError and nothing
  is returned.
\<close>

theorem early_return_counterexample:
  "useDatabaseRef dev_env list_ref (with_target used_target) = ReturnedTarget used_target
   \<and> read_property (useDatabaseRef dev_env list_ref (with_target used_target)) ''error''
       = Some (Foreign 1)
   \<and> read_property (useDatabaseRef dev_env list_ref (with_target used_target)) ''error''
       \<noteq> Some ErrorRef
   \<and> thrown (useDatabaseRef client_env list_ref (with_target used_target)) = Some TypeError
   \<and> read_property (useDatabaseRef client_env list_ref (with_target used_target)) ''error''
       \<noteq> Some ErrorRef"
proof -
  have w: "written_target dev_env
             (Object_assign (globalDatabaseOptions dev_env) (with_target used_target))
           = Some used_target"
    by (simp add: written_target_def Object_assign_def ex_defs read_defs)
  have a: "useDatabaseRef dev_env list_ref (with_target used_target) = ReturnedTarget used_target"
    using w by (simp add: useDatabaseRef_def Let_def)
  have c: "read_property (ReturnedTarget used_target) ''error'' = Some (Foreign 1)"
    by (simp add: read_property_def used_target_def)
  have n: "written_target client_env
             (Object_assign (globalDatabaseOptions client_env) (with_target used_target)) = None"
    by (simp add: written_target_def client_env_def)
  have q: "prior_props (Object_assign (globalDatabaseOptions client_env) (with_target used_target))
             = t_props used_target"
    by (simp add: prior_props_def Object_assign_def ex_defs read_defs)
  have t: "defineProperties (t_props used_target) accessors
             = Inl (TypeError, t_props used_target)"
    by (simp add: accessors_def redefinable_def used_target_def)
  obtain s where b: "useDatabaseRef client_env list_ref (with_target used_target)
                       = Thrown TypeError s"
    using n t by (simp add: useDatabaseRef_def Let_def set_up_frame q)
  have d: "read_property (Thrown TypeError s) ''error'' = None"
    by (simp add: read_property_def)
  show ?thesis
    by (simp add: a b c d)
qed

section \<open>The state a call sets up\<close>

lemma hydrate_frame:
  "data_value (hydrate env ref os) =
     getInitialValue env (unref ref) (ssrKey os) (prior_value os) (useFirebaseApp env)"
  "promises (hydrate env ref os) = []"
  "effects (hydrate env ref os) = []"
  "reference (hydrate env ref os) = ref"
  "opts (hydrate env ref os) = os"
  "pending_value (hydrate env ref os) = False"
  "error_value (hydrate env ref os) = None"
  "shouldStartAsPending (hydrate env ref os) =
     (getInitialValue env (unref ref) (ssrKey os) (prior_value os) (useFirebaseApp env)
        = VUndefined)"
  "watcher (hydrate env ref os) = NoWatcher"
  "stopWatcher (hydrate env ref os) = SNoop"
  "removePendingPromise (hydrate env ref os) = RNoop"
  "scope_cleanup (hydrate env ref os) = False"
  "server_prefetch (hydrate env ref os) = False"
  by (simp_all add: hydrate_def Let_def)

lemma data_value_after_final:
  "final_state r = Some s \<Longrightarrow> data_value_after r = data_value s"
  by (cases r) auto

lemma bind_effects:
  "filter is_watch (effects (bindDatabaseRef env s)) = filter is_watch (effects s)"
  "filter is_addPendingPromise (effects (bindDatabaseRef env s))
     = filter is_addPendingPromise (effects s)"
  "(CallOnScopeDispose \<in> set (effects (bindDatabaseRef env s)))
     = (CallOnScopeDispose \<in> set (effects s))"
  "(CallOnServerPrefetch \<in> set (effects (bindDatabaseRef env s)))
     = (CallOnServerPrefetch \<in> set (effects s))"
  "unbind (bindDatabaseRef env s) \<noteq> None"
  by (cases "unref (reference s)"; simp add: bind_present bind_absent)+

text \<open>The binder calls of a bind.\<close>

lemma bind_binder:
  "filter is_binder (effects (bindDatabaseRef env s)) = filter is_binder (effects s)
     @ (case unref (reference s) of
          Present r \<Rightarrow>
            [if isArray (data_value s)
             then CallBindAsArray \<lparr> b_target = DataRef, b_data = data_value s,
                    b_reference = r, b_resolve = ResolveOf (length (promises s)),
                    b_reject = RejectOf (length (promises s)), b_options = opts s \<rparr>
             else CallBindAsObject \<lparr> b_target = DataRef, b_data = data_value s,
                    b_reference = r, b_resolve = ResolveOf (length (promises s)),
                    b_reject = RejectOf (length (promises s)), b_options = opts s \<rparr>]
        | _ \<Rightarrow> [])"
  by (cases "unref (reference s)") (simp_all add: bind_present bind_absent)

lemma stop_effects:
  "filter is_watch (effects (stop r s)) = filter is_watch (effects s)"
  "filter is_addPendingPromise (effects (stop r s)) = filter is_addPendingPromise (effects s)"
  "(CallOnScopeDispose \<in> set (effects (stop r s))) = (CallOnScopeDispose \<in> set (effects s))"
  "(CallOnServerPrefetch \<in> set (effects (stop r s)))
     = (CallOnServerPrefetch \<in> set (effects s))"
  "filter is_binder (effects (stop r s)) = filter is_binder (effects s)"
  by (simp_all add: event_defs Let_def
      split: option.split unbind_fn.split remove_fn.split stop_watcher_fn.split)

lemma step_effects:
  "filter is_watch (effects (step env e s)) = filter is_watch (effects s)"
  "filter is_addPendingPromise (effects (step env e s)) = filter is_addPendingPromise (effects s)"
  "(CallOnScopeDispose \<in> set (effects (step env e s))) = (CallOnScopeDispose \<in> set (effects s))"
  "(CallOnServerPrefetch \<in> set (effects (step env e s)))
     = (CallOnServerPrefetch \<in> set (effects s))"
  by (cases e; simp add: bind_effects stop_effects chain_frame)+

lemma run_effects:
  "filter is_watch (effects (run env es s)) = filter is_watch (effects s)"
  "filter is_addPendingPromise (effects (run env es s)) = filter is_addPendingPromise (effects s)"
  "(CallOnScopeDispose \<in> set (effects (run env es s))) = (CallOnScopeDispose \<in> set (effects s))"
  "(CallOnServerPrefetch \<in> set (effects (run env es s)))
     = (CallOnServerPrefetch \<in> set (effects s))"
  by (induction es arbitrary: s; simp add: step_effects)+

lemma step_unbind: "unbind s \<noteq> None \<Longrightarrow> unbind (step env e s) \<noteq> None"
  using bind_effects(5) by (cases e) (auto simp add: stop_frame chain_frame2)

lemma run_unbind: "unbind s \<noteq> None \<Longrightarrow> unbind (run env es s) \<noteq> None"
proof (induction es arbitrary: s)
  case Nil
  then show ?case by simp
next
  case (Cons e es)
  have "unbind (step env e s) \<noteq> None" using Cons.prems by (rule step_unbind)
  then show ?case using Cons.IH by simp
qed

lemma step_promise_value: "promise_value s \<noteq> None \<Longrightarrow> promise_value (step env e s) \<noteq> None"
  by (cases e) (auto simp add: bind_frame stop_frame chain_frame)

lemma run_promise_value: "promise_value s \<noteq> None \<Longrightarrow> promise_value (run env es s) \<noteq> None"
proof (induction es arbitrary: s)
  case Nil
  then show ?case by simp
next
  case (Cons e es)
  have "promise_value (step env e s) \<noteq> None" using Cons.prems by (rule step_promise_value)
  then show ?case using Cons.IH by simp
qed

text \<open>Without a stop the watcher keeps its state; nothing makes a watcher active again.\<close>

lemma stop_watcher:
  "watcher (stop r s) = (case stopWatcher s of SNoop \<Rightarrow> watcher s | SWatch \<Rightarrow> Stopped)"
  by (simp add: event_defs Let_def
      split: option.split unbind_fn.split remove_fn.split stop_watcher_fn.split)

lemma step_watcher:
  "\<not> is_stop e \<or> stopWatcher s = SNoop \<Longrightarrow> watcher (step env e s) = watcher s"
  by (cases e) (auto simp add: bind_frame chain_frame stop_watcher)

lemma run_watcher:
  "\<not> list_ex is_stop es \<or> stopWatcher s = SNoop \<Longrightarrow> watcher (run env es s) = watcher s"
  by (induction es arbitrary: s) (auto simp add: step_watcher step_frame)





lemma set_up_state:
  "reference (set_up env ref os) = ref"
  "watcher (set_up env ref os) = (if isRef ref \<and> watch_live env then Active else NoWatcher)"
  "stopWatcher (set_up env ref os) = (if isRef ref \<and> watch_live env then SWatch else SNoop)"
  "removePendingPromise (set_up env ref os)
     = (case unref ref of Present d \<Rightarrow> RRemove (Some 0) d | _ \<Rightarrow> RNoop)"
  "promise_value (set_up env ref os) = Some 0"
  "length (promises (set_up env ref os)) = 1"
  "scope_cleanup (set_up env ref os) = getCurrentScope env"
  "server_prefetch (set_up env ref os) = (getCurrentScope env \<and> getCurrentInstance env)"
  "unbind (set_up env ref os) \<noteq> None"
  by (simp_all add: set_up_def register_frame bind_frame bind_effects install_frame hydrate_frame)
     (simp_all add: register_scope_def register_pending_def install_watcher_def bind_frame
        hydrate_frame Let_def split: nullable.split)

lemma set_up_effects:
  "filter is_watch (effects (set_up env ref os)) = (if isRef ref then [CallWatch] else [])"
  "filter is_addPendingPromise (effects (set_up env ref os))
     = (case unref ref of Present d \<Rightarrow> [CallAddPendingPromise (Some 0) d] | _ \<Rightarrow> [])"
  "getCurrentScope env \<Longrightarrow> CallOnScopeDispose \<in> set (effects (set_up env ref os))"
  "getCurrentScope env \<and> getCurrentInstance env
     \<Longrightarrow> CallOnServerPrefetch \<in> set (effects (set_up env ref os))"
  by (simp_all add: set_up_def register_scope_def register_pending_def Let_def bind_effects
        bind_frame install_frame hydrate_frame split: nullable.split)
     (simp_all add: install_watcher_def hydrate_frame)

text \<open>The first bind runs in the hydrated state.\<close>

lemma set_up_bind:
  "filter is_binder (effects (set_up env ref os))
     = (case unref ref of
          Present r \<Rightarrow>
            [if isArray (data_value (set_up env ref os))
             then CallBindAsArray \<lparr> b_target = DataRef, b_data = data_value (set_up env ref os),
                    b_reference = r, b_resolve = ResolveOf 0, b_reject = RejectOf 0,
                    b_options = ssr_once env os \<rparr>
             else CallBindAsObject \<lparr> b_target = DataRef, b_data = data_value (set_up env ref os),
                    b_reference = r, b_resolve = ResolveOf 0, b_reject = RejectOf 0,
                    b_options = ssr_once env os \<rparr>]
        | _ \<Rightarrow> [])"
  "unbind (set_up env ref os)
     = (case unref ref of
          Present r \<Rightarrow>
            Some (UHandle (if isArray (data_value (set_up env ref os))
               then bindAsArray env \<lparr> b_target = DataRef,
                      b_data = data_value (set_up env ref os),
                      b_reference = r, b_resolve = ResolveOf 0, b_reject = RejectOf 0,
                      b_options = ssr_once env os \<rparr>
               else bindAsObject env \<lparr> b_target = DataRef,
                      b_data = data_value (set_up env ref os),
                      b_reference = r, b_resolve = ResolveOf 0, b_reject = RejectOf 0,
                      b_options = ssr_once env os \<rparr>))
        | _ \<Rightarrow> Some UNoop)"
  "pending_value (set_up env ref os)
     = (case unref ref of
          Present r \<Rightarrow> data_value (set_up env ref os) = VUndefined
        | _ \<Rightarrow> False)"
  by (cases "unref ref";
      simp add: set_up_def register_scope_def register_pending_def Let_def bind_present
        bind_absent install_frame hydrate_frame;
      simp add: install_watcher_def hydrate_frame)+



text \<open>The state of a call that got past the check, with what the lemmas above say of it.\<close>

lemma past_the_check:
  assumes "written_target env (Object_assign (globalDatabaseOptions env) lo) = None"
  obtains s0 ps where "final_state (useDatabaseRef env ref lo) = Some s0"
    and "s0 = (set_up env ref (Object_assign (globalDatabaseOptions env) lo))
                \<lparr> data_props := ps \<rparr>"
  using set_up_final_state [OF assms] final_state_set_up by blast

section \<open>Hydration\<close>

lemma effects_of_final:
  "final_state r = Some s \<Longrightarrow> effects_of r = effects s"
  by (cases r) auto

lemma binder_calls_filter: "binder_calls (filter is_binder es) = binder_calls es"
  by (induction es rule: binder_calls.induct) simp_all

text \<open>
  C3 (as amended). A call that does not leave through the development-only return of line 56
  sets \<^verbatim>\<open>data.value\<close>, before any binding, to the result of \<^verbatim>\<open>getInitialValue\<close> applied to
  the initial unwrapped reference, the \<^verbatim>\<open>ssrKey\<close> option, the prior value of the ref (that of
  the caller's target, \<^verbatim>\<open>undefined\<close> for a new ref) and the firebase app: this is the value
  after the call, it is the value the data ref holds in every binder call the function makes,
  and it decides the binder and the pending flag of the first bind.
\<close>

theorem hydrated_before_binding:
  assumes "written_target env (Object_assign (globalDatabaseOptions env) lo) = None"
  shows "let os = Object_assign (globalDatabaseOptions env) lo;
             v = getInitialValue env (unref ref) (ssrKey os)
                   (case target_key os of Given t \<Rightarrow> t_value t | _ \<Rightarrow> VUndefined)
                   (useFirebaseApp env)
         in data_value_after (useDatabaseRef env ref lo) = v
            \<and> map b_data (binder_calls (effects_of (useDatabaseRef env ref lo)))
                = (case unref ref of Present r \<Rightarrow> [v] | _ \<Rightarrow> [])
            \<and> map is_bindAsArray (filter is_binder (effects_of (useDatabaseRef env ref lo)))
                = (case unref ref of Present r \<Rightarrow> [isArray v] | _ \<Rightarrow> [])
            \<and> map_option pending_value (final_state (useDatabaseRef env ref lo))
                = Some (case unref ref of Present r \<Rightarrow> v = VUndefined | _ \<Rightarrow> False)"
proof -
  let ?os = "Object_assign (globalDatabaseOptions env) lo"
  let ?v = "getInitialValue env (unref ref) (ssrKey ?os)
              (case target_key ?os of Given t \<Rightarrow> t_value t | _ \<Rightarrow> VUndefined)
              (useFirebaseApp env)"
  obtain s0 ps where s0: "final_state (useDatabaseRef env ref lo) = Some s0"
    and ps: "s0 = (set_up env ref ?os) \<lparr> data_props := ps \<rparr>"
    using assms by (rule past_the_check)
  have p: "prior_value ?os = (case target_key ?os of Given t \<Rightarrow> t_value t | _ \<Rightarrow> VUndefined)"
    by (cases "target_key ?os") (simp_all add: prior_value_def target_def)
  have v: "data_value s0 = ?v"
    unfolding ps by (simp add: set_up_frame p)
  have b: "filter is_binder (effects s0)
             = filter is_binder (effects (set_up env ref ?os))"
    and q: "pending_value s0 = pending_value (set_up env ref ?os)"
    and d: "data_value (set_up env ref ?os) = ?v"
    unfolding ps by (simp_all add: set_up_frame p)
  have 1: "data_value_after (useDatabaseRef env ref lo) = ?v"
    using data_value_after_final [OF s0] v by simp
  have 2: "map is_bindAsArray (filter is_binder (effects s0))
             = (case unref ref of Present r \<Rightarrow> [isArray ?v] | _ \<Rightarrow> [])"
    unfolding b by (cases "unref ref") (simp_all add: set_up_bind d)
  have "map b_data (binder_calls (filter is_binder (effects s0)))
             = (case unref ref of Present r \<Rightarrow> [?v] | _ \<Rightarrow> [])"
    unfolding b by (cases "unref ref") (simp_all add: set_up_bind d)
  then have 3: "map b_data (binder_calls (effects s0))
             = (case unref ref of Present r \<Rightarrow> [?v] | _ \<Rightarrow> [])"
    by (simp add: binder_calls_filter)
  have 4: "pending_value s0 = (case unref ref of Present r \<Rightarrow> ?v = VUndefined | _ \<Rightarrow> False)"
    unfolding q by (cases "unref ref") (simp_all add: set_up_bind d)
  show ?thesis
    using 1 2 3 4 by (simp add: Let_def effects_of_final [OF s0] s0)
qed

text \<open>
  A development build and a new target that holds 5. For the query there is no snapshot and
  the data ref keeps the 5 of the target; for the list the snapshot replaces it.
\<close>

theorem hydrated_before_binding_witness:
  "data_value_after (useDatabaseRef dev_env query_ref (with_target new_target)) = VOther 5
   \<and> map b_data (binder_calls
         (effects_of (useDatabaseRef dev_env query_ref (with_target new_target))))
       = [VOther 5]
   \<and> map is_bindAsArray (filter is_binder
         (effects_of (useDatabaseRef dev_env query_ref (with_target new_target))))
       = [False]
   \<and> map_option pending_value
         (final_state (useDatabaseRef dev_env query_ref (with_target new_target)))
       = Some False
   \<and> data_value_after (useDatabaseRef dev_env list_ref (with_target new_target))
       = VArray [VOther 1]
   \<and> map b_data (binder_calls
         (effects_of (useDatabaseRef dev_env list_ref (with_target new_target))))
       = [VArray [VOther 1]]
   \<and> map is_bindAsArray (filter is_binder
         (effects_of (useDatabaseRef dev_env list_ref (with_target new_target))))
       = [True]"
proof -
  let ?os = "Object_assign (globalDatabaseOptions dev_env) (with_target new_target)"
  have g: "written_target dev_env ?os = None"
    by (simp add: written_target_def Object_assign_def ex_defs read_defs)
  have k: "target_key ?os = Given new_target" "ssrKey ?os = None"
    by (simp_all add: Object_assign_def ex_defs read_defs)
  have q: "getInitialValue dev_env (Present (Query 3)) None (t_value new_target)
             (useFirebaseApp dev_env) = VOther 5"
    "unref query_ref = Present (Query 3)"
    by (simp_all add: ex_defs)
  have l: "getInitialValue dev_env (Present (DatabaseReference 7)) None (t_value new_target)
             (useFirebaseApp dev_env) = VArray [VOther 1]"
    "unref list_ref = Present (DatabaseReference 7)"
    by (simp_all add: ex_defs)
  show ?thesis
    using hydrated_before_binding [OF g, of query_ref]
      hydrated_before_binding [OF g, of list_ref]
    by (simp add: Let_def k q l)
qed

text \<open>
  C3 as stated fails for a target that an earlier call has returned, in a development build:
  line 56 returns before line 66, and the target keeps its value 5 although the snapshot
  holds a list for the reference.
\<close>

theorem early_return_skips_hydration:
  "data_value_after (useDatabaseRef dev_env list_ref (with_target used_target)) = VOther 5
   \<and> getInitialValue dev_env (unref list_ref)
        (ssrKey (Object_assign (globalDatabaseOptions dev_env) (with_target used_target)))
        (prior_value (Object_assign (globalDatabaseOptions dev_env) (with_target used_target)))
        (useFirebaseApp dev_env) = VArray [VOther 1]
   \<and> data_value_after (useDatabaseRef dev_env list_ref (with_target used_target))
       \<noteq> getInitialValue dev_env (unref list_ref)
            (ssrKey (Object_assign (globalDatabaseOptions dev_env) (with_target used_target)))
            (prior_value (Object_assign (globalDatabaseOptions dev_env) (with_target used_target)))
            (useFirebaseApp dev_env)
   \<and> final_state (useDatabaseRef dev_env list_ref (with_target used_target)) = None"
proof -
  have w: "written_target dev_env
             (Object_assign (globalDatabaseOptions dev_env) (with_target used_target))
           = Some used_target"
    by (simp add: written_target_def Object_assign_def ex_defs read_defs)
  have a: "useDatabaseRef dev_env list_ref (with_target used_target) = ReturnedTarget used_target"
    using w by (rule early_return_final_state)
  have v: "getInitialValue dev_env (unref list_ref)
             (ssrKey (Object_assign (globalDatabaseOptions dev_env) (with_target used_target)))
             (prior_value (Object_assign (globalDatabaseOptions dev_env) (with_target used_target)))
             (useFirebaseApp dev_env) = VArray [VOther 1]"
    by (simp add: Object_assign_def prior_value_def ex_defs read_defs)
  show ?thesis
    by (simp add: a v) (simp add: used_target_def)
qed

section \<open>The promise chains\<close>

lemma consistent_cong:
  assumes "promise_value t = promise_value s" and "promises t = promises s"
    and "error_value t = error_value s"
  shows "consistent t = consistent s"
  using assms by (simp add: consistent_def)

lemma list_all_update: "list_all P xs \<Longrightarrow> P y \<Longrightarrow> list_all P (xs[k := y])"
  by (induction xs arbitrary: k) (auto split: nat.split)

lemma list_all_nth: "list_all P xs \<Longrightarrow> k < length xs \<Longrightarrow> P (xs ! k)"
  by (simp add: list_all_length)

lemma consistent_bind: "consistent s \<Longrightarrow> consistent (bindDatabaseRef env s)"
  by (cases "unref (reference s)")
     (simp_all add: consistent_def chain_ok_def bind_present bind_absent)

lemma consistent_stop: "consistent (stop r s) = consistent s"
  by (rule consistent_cong) (simp_all add: stop_frame)

lemma current_ok_update:
  assumes "current_ok c ps e" and "caught y = caught (ps ! j)"
  shows "current_ok c (ps[j := y]) e"
  using assms by (cases c; cases "j < length ps") (auto simp add: nth_list_update)

lemma current_ok_replace:
  assumes "current_ok c ps e" and "c = Some j \<Longrightarrow> recorded (caught y) e'"
    and "c \<noteq> Some j \<Longrightarrow> e' = e"
  shows "current_ok c (ps[j := y]) e'"
proof (cases c)
  case None
  then show ?thesis by simp
next
  case (Some a)
  show ?thesis
  proof (cases "a = j")
    case True
    then show ?thesis using assms Some by simp
  next
    case False
    then show ?thesis using assms Some by simp
  qed
qed

lemma consistent_settle: "consistent s \<Longrightarrow> consistent (settle_executor k x s)"
proof -
  assume c: "consistent s"
  show ?thesis
  proof (cases "k < length (promises s) \<and> executor (promises s ! k) = Pending")
    case False
    then show ?thesis using c by (auto simp add: settle_executor_def)
  next
    case True
    let ?y = "(promises s ! k) \<lparr> executor := x \<rparr>"
    have "chain_ok (promises s ! k)"
      using c True by (simp add: consistent_def list_all_nth)
    then have "chain_ok ?y"
      using True by (auto simp add: chain_ok_def)
    then have 1: "list_all chain_ok ((promises s)[k := ?y])"
      using c by (simp add: consistent_def list_all_update)
    have 2: "current_ok (promise_value s) ((promises s)[k := ?y]) (error_value s)"
      using c by (simp add: consistent_def current_ok_update)
    show ?thesis using True 1 2 by (simp add: settle_executor_def consistent_def)
  qed
qed

lemma consistent_finally: "consistent s \<Longrightarrow> consistent (run_finally k s)"
proof -
  assume c: "consistent s"
  show ?thesis
  proof (cases "k < length (promises s) \<and> chained (promises s ! k) = Pending
                \<and> caught (promises s ! k) \<noteq> Pending")
    case False
    then show ?thesis using c by (auto simp add: run_finally_def)
  next
    case True
    let ?y = "(promises s ! k) \<lparr> chained := caught (promises s ! k) \<rparr>"
    have "chain_ok (promises s ! k)"
      using c True by (simp add: consistent_def list_all_nth)
    then have "chain_ok ?y"
      by (auto simp add: chain_ok_def)
    then have 1: "list_all chain_ok ((promises s)[k := ?y])"
      using c by (simp add: consistent_def list_all_update)
    have 2: "current_ok (promise_value s) ((promises s)[k := ?y]) (error_value s)"
      using c by (simp add: consistent_def current_ok_update)
    show ?thesis using True 1 2 by (simp add: run_finally_def consistent_def)
  qed
qed

lemma consistent_catch: "consistent s \<Longrightarrow> consistent (run_catch k s)"
proof -
  assume c: "consistent s"
  show ?thesis
  proof (cases "k < length (promises s) \<and> caught (promises s ! k) = Pending")
    case False
    then show ?thesis using c by (auto simp add: run_catch_def)
  next
    case True
    have ok: "chain_ok (promises s ! k)"
      using c True by (simp add: consistent_def list_all_nth)
    show ?thesis
    proof (cases "executor (promises s ! k)")
      case Pending
      then show ?thesis using c True by (simp add: run_catch_def)
    next
      case (Fulfilled v)
      let ?y = "(promises s ! k) \<lparr> caught := Fulfilled v \<rparr>"
      have "chain_ok ?y" using ok True Fulfilled by (auto simp add: chain_ok_def)
      then have 1: "list_all chain_ok ((promises s)[k := ?y])"
        using c by (simp add: consistent_def list_all_update)
      have "current_ok (promise_value s) (promises s) (error_value s)"
        using c by (simp add: consistent_def)
      then have 2: "current_ok (promise_value s) ((promises s)[k := ?y]) (error_value s)"
        by (rule current_ok_replace) simp_all
      show ?thesis using True Fulfilled 1 2 by (simp add: run_catch_def consistent_def)
    next
      case (Rejected r)
      let ?y = "(promises s ! k) \<lparr> caught := Rejected r \<rparr>"
      let ?e = "if promise_value s = Some k then Some r else error_value s"
      have "chain_ok ?y" using ok True Rejected by (auto simp add: chain_ok_def)
      then have 1: "list_all chain_ok ((promises s)[k := ?y])"
        using c by (simp add: consistent_def list_all_update)
      have "current_ok (promise_value s) (promises s) (error_value s)"
        using c by (simp add: consistent_def)
      then have 2: "current_ok (promise_value s) ((promises s)[k := ?y]) ?e"
        by (rule current_ok_replace) simp_all
      show ?thesis using True Rejected 1 2 by (simp add: run_catch_def consistent_def)
    qed
  qed
qed


lemma consistent_step: "consistent s \<Longrightarrow> consistent (step env e s)"
proof (cases e)
  case (ReferenceChange v)
  assume c: "consistent s"
  have "consistent (s \<lparr> reference := Reactive v \<rparr>)"
    using c consistent_cong [of "s \<lparr> reference := Reactive v \<rparr>" s] by simp
  then show ?thesis
    using c ReferenceChange by (simp add: consistent_bind)
next
  case (DataWrite v)
  assume "consistent s"
  then show ?thesis
    using DataWrite consistent_cong [of "s \<lparr> data_value := v \<rparr>" s] by simp
next
  case ScopeDispose
  assume c: "consistent s"
  have "consistent ((stop None s) \<lparr> scope_cleanup := False \<rparr>) = consistent (stop None s)"
    by (rule consistent_cong) simp_all
  then show ?thesis
    using c ScopeDispose by (simp add: consistent_stop)
qed (simp_all add: consistent_settle consistent_catch consistent_finally consistent_stop)

lemma consistent_run: "consistent s \<Longrightarrow> consistent (run env es s)"
  by (induction es arbitrary: s) (simp_all add: consistent_step)

lemma consistent_set_up: "consistent (set_up env ref os)"
proof -
  let ?h = "hydrate env ref (ssr_once env os)"
  let ?b = "bindDatabaseRef env (install_watcher env ?h)"
  have "consistent ?h"
    by (simp add: consistent_def hydrate_def Let_def)
  moreover have "consistent (install_watcher env ?h) = consistent ?h"
    by (rule consistent_cong) (simp_all add: install_watcher_def)
  ultimately have "consistent ?b"
    using consistent_bind by simp
  moreover have "consistent (set_up env ref os) = consistent ?b"
    by (rule consistent_cong)
       (simp_all add: set_up_def register_scope_def register_pending_def Let_def
          split: nullable.split)
  ultimately show ?thesis by simp
qed

lemma consistent_final:
  assumes "final_state (useDatabaseRef env ref lo) = Some s"
  shows "consistent s"
proof -
  obtain ps where "s = (set_up env ref (Object_assign (globalDatabaseOptions env) lo))
                         \<lparr> data_props := ps \<rparr>"
    using final_state_set_up [OF assms] by blast
  then have "consistent s
               = consistent (set_up env ref (Object_assign (globalDatabaseOptions env) lo))"
    using consistent_cong [of s "set_up env ref (Object_assign (globalDatabaseOptions env) lo)"]
    by simp
  then show ?thesis
    by (simp add: consistent_set_up)
qed

text \<open>Only the job of \<open>finally\<close> settles \<open>newPromise\<close>.\<close>

lemma bind_keeps_chains:
  "k < length (promises s) \<Longrightarrow> promises (bindDatabaseRef env s) ! k = promises s ! k"
  by (cases "unref (reference s)") (simp_all add: bind_present bind_absent nth_append)

lemma chained_settles:
  assumes "k < length (promises s)" and "chained (promises s ! k) = Pending"
    and "chained (promises (step env e s) ! k) \<noteq> Pending"
  shows "e = RunFinally k \<and> chained (promises (step env e s) ! k) = caught (promises s ! k)"
proof (cases e)
  case (ReferenceChange v)
  have "promises (bindDatabaseRef env (s \<lparr> reference := Reactive v \<rparr>)) ! k = promises s ! k"
    using assms(1) bind_keeps_chains [of k "s \<lparr> reference := Reactive v \<rparr>" env] by simp
  then show ?thesis using assms ReferenceChange by (auto split: if_splits)
next
  case (RunFinally j)
  then show ?thesis using assms
    by (auto simp add: run_finally_def nth_list_update split: if_splits)
next
  case (RunCatch j)
  then show ?thesis using assms
    by (auto simp add: run_catch_def nth_list_update split: if_splits settle.splits)
next
  case (Resolve j v)
  then show ?thesis using assms
    by (auto simp add: settle_executor_def nth_list_update split: if_splits)
next
  case (Reject j v)
  then show ?thesis using assms
    by (auto simp add: settle_executor_def nth_list_update split: if_splits)
next
  case (DataWrite v)
  then show ?thesis using assms by simp
next
  case ScopeDispose
  then show ?thesis using assms by (simp add: stop_frame split: if_splits)
next
  case (Stop r)
  then show ?thesis using assms by (simp add: stop_frame)
qed

lemma superseded_silent:
  assumes "promise_value s \<noteq> Some k" and "chain_of e = Some k"
  shows "pending_value (step env e s) = pending_value s"
    and "error_value (step env e s) = error_value s"
  using assms
  by (cases e; simp add: settle_executor_def run_catch_def run_finally_def split: settle.split)+

lemma jobs_settle:
  assumes "chain_ok (promises s ! k)" and "k < length (promises s)"
    and "executor (promises s ! k) \<noteq> Pending"
  shows "chained (promises (run env [RunCatch k, RunFinally k] s) ! k) = executor (promises s ! k)"
proof -
  let ?t = "run_catch k s"
  have 1: "caught (promises ?t ! k) = executor (promises s ! k)"
    using assms by (auto simp add: chain_ok_def run_catch_def split: settle.splits)
  have 2: "k < length (promises ?t)"
    using assms(2) by (simp add: chain_frame)
  have 3: "chained (promises ?t ! k) = Pending \<or> chained (promises ?t ! k) = caught (promises ?t ! k)"
    using assms by (auto simp add: chain_ok_def run_catch_def split: settle.splits)
  have "chained (promises (run_finally k ?t) ! k) = caught (promises ?t ! k)"
    using 2 3 1 assms(3) by (auto simp add: run_finally_def)
  then show ?thesis using 1 by simp
qed

text \<open>
  C2. In every state a call can reach, for every chain \<open>k\<close> and every event: if \<open>k\<close> is
  the chain stored in \<^verbatim>\<open>promise\<close> and the event settles its \<^verbatim>\<open>newPromise\<close>, then
  \<^verbatim>\<open>pending.value\<close> is false afterwards; if it settles it as rejected, \<^verbatim>\<open>error.value\<close> is
  the reason, which is the reason the binder rejected with. A rejection of the executor's
  promise is propagated: once the two jobs have run, \<^verbatim>\<open>newPromise\<close> is rejected with the same
  reason. An event of a chain that is not the stored one (it has been superseded) changes
  neither \<^verbatim>\<open>pending.value\<close> nor \<^verbatim>\<open>error.value\<close>.
\<close>

theorem pending_tracks_current_promise:
  assumes "final_state (useDatabaseRef env ref lo) = Some s0"
    and "s = run env es s0"
    and "k < length (promises s)"
  shows "(promise_value s = Some k \<and> chained (promises s ! k) = Pending
            \<and> chained (promises (step env e s) ! k) \<noteq> Pending
          \<longrightarrow> pending_value (step env e s) = False)
       \<and> (promise_value s = Some k \<and> chained (promises s ! k) = Pending
            \<and> chained (promises (step env e s) ! k) = Rejected r
          \<longrightarrow> error_value (step env e s) = Some r \<and> executor (promises s ! k) = Rejected r)
       \<and> (executor (promises s ! k) = Rejected r
          \<longrightarrow> chained (promises (run env [RunCatch k, RunFinally k] s) ! k) = Rejected r)
       \<and> (promise_value s \<noteq> Some k \<and> chain_of e = Some k
          \<longrightarrow> pending_value (step env e s) = pending_value s
              \<and> error_value (step env e s) = error_value s)"
proof -
  have c: "consistent s"
    using assms(1,2) by (simp add: consistent_final consistent_run)
  then have ok: "chain_ok (promises s ! k)"
    using assms(3) by (simp add: consistent_def list_all_nth)
  have p1: "pending_value (step env e s) = False"
    if "promise_value s = Some k" "chained (promises s ! k) = Pending"
       "chained (promises (step env e s) ! k) \<noteq> Pending"
  proof -
    have e: "e = RunFinally k" using chained_settles [OF assms(3) that(2,3)] by simp
    show ?thesis using that assms(3) unfolding e
      by (auto simp add: run_finally_def split: if_splits)
  qed
  have p2: "error_value (step env e s) = Some r \<and> executor (promises s ! k) = Rejected r"
    if "promise_value s = Some k" "chained (promises s ! k) = Pending"
       "chained (promises (step env e s) ! k) = Rejected r"
  proof -
    have n: "chained (promises (step env e s) ! k) \<noteq> Pending" using that(3) by simp
    have e: "e = RunFinally k" and r: "caught (promises s ! k) = Rejected r"
      using chained_settles [OF assms(3) that(2) n] that(3) by simp_all
    have "error_value s = Some r"
      using c that(1) r by (simp add: consistent_def)
    moreover have "executor (promises s ! k) = Rejected r"
      using ok r by (auto simp add: chain_ok_def)
    ultimately show ?thesis unfolding e by (simp add: run_finally_def)
  qed
  have p3: "chained (promises (run env [RunCatch k, RunFinally k] s) ! k) = Rejected r"
    if "executor (promises s ! k) = Rejected r"
    using jobs_settle [OF ok assms(3), of env] that by simp
  show ?thesis
    using p1 p2 p3 superseded_silent [of s k e env] by blast
qed

text \<open>
  A list is bound, the reference changes to a query, and the binder rejects the second bind
  with reason 9; in another run it rejects the first, superseded bind with reason 4.
\<close>

theorem pending_tracks_current_promise_witness:
  "map_option pending_value
     (after client_env [ReferenceChange (Present (Query 3)), Reject 1 9, RunCatch 1, RunFinally 1]
        (useDatabaseRef client_env list_ref no_options)) = Some False
   \<and> map_option error_value
     (after client_env [ReferenceChange (Present (Query 3)), Reject 1 9, RunCatch 1, RunFinally 1]
        (useDatabaseRef client_env list_ref no_options)) = Some (Some 9)
   \<and> map_option (\<lambda>s. chained (promises s ! 1))
     (after client_env [ReferenceChange (Present (Query 3)), Reject 1 9, RunCatch 1, RunFinally 1]
        (useDatabaseRef client_env list_ref no_options)) = Some (Rejected 9)
   \<and> map_option pending_value
     (after client_env [ReferenceChange (Present (Query 3)), Reject 0 4, RunCatch 0]
        (useDatabaseRef client_env list_ref no_options)) = Some True
   \<and> map_option error_value
     (after client_env [ReferenceChange (Present (Query 3)), Reject 0 4, RunCatch 0]
        (useDatabaseRef client_env list_ref no_options)) = Some None"
proof -
  have g: "written_target client_env
             (Object_assign (globalDatabaseOptions client_env) no_options) = None"
    by (simp add: written_target_def client_env_def)
  obtain s0 where s0: "final_state (useDatabaseRef client_env list_ref no_options) = Some s0"
    using set_up_final_state [OF g] by blast
  obtain ps where ps: "s0 = (set_up client_env list_ref
        (Object_assign (globalDatabaseOptions client_env) no_options)) \<lparr> data_props := ps \<rparr>"
    using final_state_set_up [OF s0] by blast
  define s where "s = run client_env [ReferenceChange (Present (Query 3)), Reject 1 9, RunCatch 1] s0"
  define t where "t = run client_env [ReferenceChange (Present (Query 3)), Reject 0 4] s0"
  have s: "promise_value s = Some 1" "length (promises s) = 2"
    "promises s ! 1 = \<lparr> executor = Rejected 9, caught = Rejected 9, chained = Pending \<rparr>"
    unfolding s_def ps by (simp_all add: call_defs event_defs ex_defs)
  have t: "promise_value t = Some 1" "length (promises t) = 2" "pending_value t = True"
    "error_value t = None"
    unfolding t_def ps by (simp_all add: call_defs event_defs ex_defs)
  have f: "chained (promises (step client_env (RunFinally 1) s) ! 1) = Rejected 9"
    using s by (simp add: run_finally_def)
  have 1: "pending_value (step client_env (RunFinally 1) s) = False
           \<and> error_value (step client_env (RunFinally 1) s) = Some 9"
    using pending_tracks_current_promise [OF s0 s_def, of 1 "RunFinally 1" 9] s f by simp
  have 2: "pending_value (step client_env (RunCatch 0) t) = True
           \<and> error_value (step client_env (RunCatch 0) t) = None"
    using pending_tracks_current_promise [OF s0 t_def, of 0 "RunCatch 0" 9] t by simp
  have a: "after client_env [ReferenceChange (Present (Query 3)), Reject 1 9, RunCatch 1, RunFinally 1]
             (useDatabaseRef client_env list_ref no_options)
           = Some (step client_env (RunFinally 1) s)"
    by (simp add: after_def s0 s_def)
  have b: "after client_env [ReferenceChange (Present (Query 3)), Reject 0 4, RunCatch 0]
             (useDatabaseRef client_env list_ref no_options)
           = Some (step client_env (RunCatch 0) t)"
    by (simp add: after_def s0 t_def)
  show ?thesis
    unfolding a b using 1 2 f by simp
qed

section \<open>Binding\<close>

text \<open>The options of every state a call can reach are the merged options of the call.\<close>

lemma options_are_merged:
  assumes "final_state (useDatabaseRef env ref lo) = Some s0"
  shows "opts (run env es s0) = ssr_once env (Object_assign (globalDatabaseOptions env) lo)"
proof -
  obtain ps where "s0 = (set_up env ref (Object_assign (globalDatabaseOptions env) lo))
                          \<lparr> data_props := ps \<rparr>"
    using final_state_set_up [OF assms] by blast
  then show ?thesis
    by (simp add: run_frame set_up_frame)
qed

text \<open>The merged options, key by key.\<close>

lemma merged_keys:
  "ssr_once env (Object_assign g lo) =
     \<lparr> target_key = (case target_key lo of Absent \<Rightarrow> target_key g | k \<Rightarrow> k),
       once_key = (if isSSR env then Given True
                   else case once_key lo of Absent \<Rightarrow> once_key g | k \<Rightarrow> k),
       ssrKey_key = (case ssrKey_key lo of Absent \<Rightarrow> ssrKey_key g | k \<Rightarrow> k),
       reset_key = (case reset_key lo of Absent \<Rightarrow> reset_key g | k \<Rightarrow> k),
       rest = rest g ++ rest lo \<rparr>"
  by (cases "target_key lo"; cases "once_key lo"; cases "ssrKey_key lo"; cases "reset_key lo")
     (simp_all add: ssr_once_def Object_assign_def)

text \<open>Until \<^verbatim>\<open>stop\<close> is called, a watcher that was set up stays active.\<close>

lemma watcher_stays_active:
  assumes "final_state (useDatabaseRef env ref lo) = Some s0"
    and "isRef ref" and "watch_live env" and "\<not> list_ex is_stop es"
  shows "watcher (run env es s0) = Active" and "isRef (reference (run env es s0))"
proof -
  obtain ps where ps: "s0 = (set_up env ref (Object_assign (globalDatabaseOptions env) lo))
                          \<lparr> data_props := ps \<rparr>"
    using final_state_set_up [OF assms(1)] by blast
  have "watcher s0 = Active" "reference s0 = ref"
    unfolding ps using assms(2,3) by (simp_all add: set_up_state)
  then show "watcher (run env es s0) = Active" "isRef (reference (run env es s0))"
    using assms(2,4) run_watcher [of es s0 env] by (simp_all add: run_frame)
qed

text \<open>Only a change of the reference to a non-null value can call the binder.\<close>

lemma step_binder:
  assumes "\<And>r. e \<noteq> ReferenceChange (Present r)"
  shows "filter is_binder (effects (step env e s)) = filter is_binder (effects s)"
proof (cases e)
  case (ReferenceChange v)
  then have "v = JNull \<or> v = JUndefined"
    using assms by (cases v) auto
  then have "filter is_binder (effects (bindDatabaseRef env (s \<lparr> reference := Reactive v \<rparr>)))
               = filter is_binder (effects s)"
    by (auto simp add: bind_absent)
  then show ?thesis using ReferenceChange by simp
qed (simp_all add: stop_effects chain_frame)

text \<open>
  C6. All listener attachment is delegated to the binder. The first bind of a call, when the
  initial reference is non-null, and every later bind, which is a change of the reference to
  a non-null value while the watcher runs, make exactly one binder call: \<^verbatim>\<open>bindAsArray\<close>
  when \<^verbatim>\<open>data.value\<close> is then an array and \<^verbatim>\<open>bindAsObject\<close> otherwise, with the data ref, the
  reference, the \<^verbatim>\<open>resolve\<close> and \<^verbatim>\<open>reject\<close> of the promise that the bind stores in
  \<^verbatim>\<open>promise\<close>, and the merged options (every key of the local options over the global
  ones, \<^verbatim>\<open>once\<close> forced on the server); the handle the binder returns becomes \<^verbatim>\<open>unbind\<close>.
  With a null reference, and at every other event, the binder is not called.
\<close>

theorem bind_delegates_to_binder:
  assumes "final_state (useDatabaseRef env ref lo) = Some s0"
  shows "let g = globalDatabaseOptions env;
             merged =
               \<lparr> target_key = (case target_key lo of Absent \<Rightarrow> target_key g | k \<Rightarrow> k),
                 once_key = (if isSSR env then Given True
                             else case once_key lo of Absent \<Rightarrow> once_key g | k \<Rightarrow> k),
                 ssrKey_key = (case ssrKey_key lo of Absent \<Rightarrow> ssrKey_key g | k \<Rightarrow> k),
                 reset_key = (case reset_key lo of Absent \<Rightarrow> reset_key g | k \<Rightarrow> k),
                 rest = rest g ++ rest lo \<rparr>;
             args = (\<lambda>d r k. \<lparr> b_target = DataRef, b_data = d, b_reference = r,
                                  b_resolve = ResolveOf k, b_reject = RejectOf k,
                                  b_options = merged \<rparr>)
         in (\<forall>r. unref ref = Present r \<longrightarrow>
               filter is_binder (effects s0)
                 = [if isArray (data_value s0) then CallBindAsArray (args (data_value s0) r 0)
                    else CallBindAsObject (args (data_value s0) r 0)]
               \<and> unbind s0
                 = Some (UHandle (if isArray (data_value s0)
                                  then bindAsArray env (args (data_value s0) r 0)
                                  else bindAsObject env (args (data_value s0) r 0)))
               \<and> promise_value s0 = Some 0)
          \<and> (unref ref = JNull \<or> unref ref = JUndefined \<longrightarrow>
               filter is_binder (effects s0) = [])
          \<and> (\<forall>es r. isRef ref \<and> watch_live env \<and> \<not> list_ex is_stop es
                      \<and> Present r \<noteq> unref (reference (run env es s0)) \<longrightarrow>
               effects (step env (ReferenceChange (Present r)) (run env es s0))
                 = effects (run env es s0)
                   @ [if isArray (data_value (run env es s0))
                      then CallBindAsArray (args (data_value (run env es s0)) r
                             (length (promises (run env es s0))))
                      else CallBindAsObject (args (data_value (run env es s0)) r
                             (length (promises (run env es s0))))]
               \<and> unbind (step env (ReferenceChange (Present r)) (run env es s0))
                 = Some (UHandle (if isArray (data_value (run env es s0))
                      then bindAsArray env (args (data_value (run env es s0)) r
                             (length (promises (run env es s0))))
                      else bindAsObject env (args (data_value (run env es s0)) r
                             (length (promises (run env es s0))))))
               \<and> promise_value (step env (ReferenceChange (Present r)) (run env es s0))
                 = Some (length (promises (run env es s0))))
          \<and> (\<forall>es e. (\<forall>r. e \<noteq> ReferenceChange (Present r)) \<longrightarrow>
               filter is_binder (effects (step env e (run env es s0)))
                 = filter is_binder (effects (run env es s0)))"
proof -
  let ?os = "Object_assign (globalDatabaseOptions env) lo"
  let ?m = "ssr_once env ?os"
  let ?args = "\<lambda>d r k. \<lparr> b_target = DataRef, b_data = d, b_reference = r,
                            b_resolve = ResolveOf k, b_reject = RejectOf k, b_options = ?m \<rparr>"
  obtain ps where ps: "s0 = (set_up env ref ?os) \<lparr> data_props := ps \<rparr>"
    using final_state_set_up [OF assms] by blast
  have f: "filter is_binder (effects s0) = filter is_binder (effects (set_up env ref ?os))"
    and u: "unbind s0 = unbind (set_up env ref ?os)"
    and d: "data_value s0 = data_value (set_up env ref ?os)"
    and p: "promise_value s0 = Some 0"
    unfolding ps by (simp_all add: set_up_state)
  have 1: "filter is_binder (effects s0)
             = [if isArray (data_value s0) then CallBindAsArray (?args (data_value s0) r 0)
                else CallBindAsObject (?args (data_value s0) r 0)]
           \<and> unbind s0
             = Some (UHandle (if isArray (data_value s0)
                              then bindAsArray env (?args (data_value s0) r 0)
                              else bindAsObject env (?args (data_value s0) r 0)))
           \<and> promise_value s0 = Some 0"
    if "unref ref = Present r" for r
    unfolding f u d using that p by (simp add: set_up_bind)
  have 2: "filter is_binder (effects s0) = []"
    if "unref ref = JNull \<or> unref ref = JUndefined"
    unfolding f using that by (auto simp add: set_up_bind)
  have 3: "effects (step env (ReferenceChange (Present r)) (run env es s0))
             = effects (run env es s0)
               @ [if isArray (data_value (run env es s0))
                  then CallBindAsArray (?args (data_value (run env es s0)) r
                         (length (promises (run env es s0))))
                  else CallBindAsObject (?args (data_value (run env es s0)) r
                         (length (promises (run env es s0))))]
           \<and> unbind (step env (ReferenceChange (Present r)) (run env es s0))
             = Some (UHandle (if isArray (data_value (run env es s0))
                  then bindAsArray env (?args (data_value (run env es s0)) r
                         (length (promises (run env es s0))))
                  else bindAsObject env (?args (data_value (run env es s0)) r
                         (length (promises (run env es s0))))))
           \<and> promise_value (step env (ReferenceChange (Present r)) (run env es s0))
             = Some (length (promises (run env es s0)))"
    if "isRef ref" "watch_live env" "\<not> list_ex is_stop es"
       "Present r \<noteq> unref (reference (run env es s0))" for es r
  proof -
    let ?t = "run env es s0"
    have a: "watcher ?t = Active" "isRef (reference ?t)"
      using watcher_stays_active [OF assms that(1,2,3)] by simp_all
    have o: "opts ?t = ?m"
      using options_are_merged [OF assms] by simp
    have e: "step env (ReferenceChange (Present r)) ?t
               = bindDatabaseRef env (?t \<lparr> reference := Reactive (Present r) \<rparr>)"
      using a that(4) by simp
    show ?thesis
      unfolding e by (simp add: bind_present o)
  qed
  have 4: "filter is_binder (effects (step env e (run env es s0)))
             = filter is_binder (effects (run env es s0))"
    if "\<forall>r. e \<noteq> ReferenceChange (Present r)" for es e
    using that by (simp add: step_binder)
  show ?thesis
    unfolding Let_def merged_keys [symmetric]
    using 1 2 3 4 by blast
qed

text \<open>
  The global options set \<^verbatim>\<open>reset\<close>, the caller sets \<^verbatim>\<open>once\<close>. A hydrated list is bound; the
  binder then writes 8 to the data ref and the reference changes to a query.
\<close>

theorem bind_delegates_to_binder_witness:
  "map_option (\<lambda>s. filter is_binder (effects s))
      (after client_env [DataWrite (VOther 8), ReferenceChange (Present (Query 3))]
         (useDatabaseRef client_env list_ref live_options))
    = Some [CallBindAsArray
              \<lparr> b_target = DataRef, b_data = VArray [VOther 1],
                b_reference = DatabaseReference 7,
                b_resolve = ResolveOf 0, b_reject = RejectOf 0,
                b_options = \<lparr> target_key = Absent, once_key = Given False,
                              ssrKey_key = Absent, reset_key = Given (ResetBool False),
                              rest = Map.empty \<rparr> \<rparr>,
            CallBindAsObject
              \<lparr> b_target = DataRef, b_data = VOther 8, b_reference = Query 3,
                b_resolve = ResolveOf 1, b_reject = RejectOf 1,
                b_options = \<lparr> target_key = Absent, once_key = Given False,
                              ssrKey_key = Absent, reset_key = Given (ResetBool False),
                              rest = Map.empty \<rparr> \<rparr>]
   \<and> map_option unbind (final_state (useDatabaseRef client_env list_ref live_options))
    = Some (Some (UHandle 0))
   \<and> map_option unbind
      (after client_env [DataWrite (VOther 8), ReferenceChange (Present (Query 3))]
         (useDatabaseRef client_env list_ref live_options))
    = Some (Some (UHandle 3))
   \<and> map_option promise_value
      (after client_env [DataWrite (VOther 8), ReferenceChange (Present (Query 3))]
         (useDatabaseRef client_env list_ref live_options))
    = Some (Some 1)"
proof -
  let ?os = "Object_assign (globalDatabaseOptions client_env) live_options"
  let ?m = "\<lparr> target_key = Absent, once_key = Given False, ssrKey_key = Absent,
             reset_key = Given (ResetBool False), rest = Map.empty \<rparr>"
  let ?es = "[DataWrite (VOther 8)]"
  have g: "written_target client_env ?os = None"
    by (simp add: written_target_def client_env_def)
  obtain s0 where s0: "final_state (useDatabaseRef client_env list_ref live_options) = Some s0"
    using set_up_final_state [OF g] by blast
  obtain ps where ps: "s0 = (set_up client_env list_ref ?os) \<lparr> data_props := ps \<rparr>"
    using final_state_set_up [OF s0] by blast
  have m: "\<lparr> target_key = (case target_key live_options of
                            Absent \<Rightarrow> target_key (globalDatabaseOptions client_env) | k \<Rightarrow> k),
             once_key = (if isSSR client_env then Given True
                         else case once_key live_options of
                                Absent \<Rightarrow> once_key (globalDatabaseOptions client_env) | k \<Rightarrow> k),
             ssrKey_key = (case ssrKey_key live_options of
                             Absent \<Rightarrow> ssrKey_key (globalDatabaseOptions client_env) | k \<Rightarrow> k),
             reset_key = (case reset_key live_options of
                            Absent \<Rightarrow> reset_key (globalDatabaseOptions client_env) | k \<Rightarrow> k),
             rest = rest (globalDatabaseOptions client_env) ++ rest live_options \<rparr> = ?m"
    by (simp add: ex_defs)
  have c: "unref list_ref = Present (DatabaseReference 7)" "isRef list_ref"
    "watch_live client_env" "\<not> list_ex is_stop ?es"
    "\<forall>r. DataWrite (VOther 8) \<noteq> ReferenceChange (Present r)"
    by (simp_all add: ex_defs)
  have v: "data_value s0 = VArray [VOther 1]"
    unfolding ps by (simp add: set_up_frame ex_defs read_defs Object_assign_def prior_value_def)
  have t: "data_value (run client_env ?es s0) = VOther 8"
    "length (promises (run client_env ?es s0)) = 1"
    "Present (Query 3) \<noteq> unref (reference (run client_env ?es s0))"
    "effects (run client_env ?es s0) = effects s0"
    unfolding ps by (simp_all add: set_up_state list_ref_def)
  have h: "bindAsArray client_env \<lparr> b_target = DataRef, b_data = VArray [VOther 1],
             b_reference = DatabaseReference 7, b_resolve = ResolveOf 0, b_reject = RejectOf 0,
             b_options = ?m \<rparr> = 0"
    "bindAsObject client_env \<lparr> b_target = DataRef, b_data = VOther 8,
             b_reference = Query 3, b_resolve = ResolveOf 1, b_reject = RejectOf 1,
             b_options = ?m \<rparr> = 3"
    by (simp_all add: client_env_def)
  note th = bind_delegates_to_binder [OF s0, unfolded Let_def m]
  have 1: "filter is_binder (effects s0)
             = [CallBindAsArray \<lparr> b_target = DataRef, b_data = VArray [VOther 1],
                  b_reference = DatabaseReference 7, b_resolve = ResolveOf 0,
                  b_reject = RejectOf 0, b_options = ?m \<rparr>]"
    "unbind s0 = Some (UHandle 0)"
    using th [THEN conjunct1, rule_format, OF c(1)] v h(1) by simp_all
  have r: "isRef list_ref \<and> watch_live client_env \<and> \<not> list_ex is_stop ?es
           \<and> Present (Query 3) \<noteq> unref (reference (run client_env ?es s0))"
    using c(2,3,4) t(3) by blast
  have 2: "effects (step client_env (ReferenceChange (Present (Query 3))) (run client_env ?es s0))
             = effects s0 @ [CallBindAsObject \<lparr> b_target = DataRef, b_data = VOther 8,
                  b_reference = Query 3, b_resolve = ResolveOf 1, b_reject = RejectOf 1,
                  b_options = ?m \<rparr>]"
    "unbind (step client_env (ReferenceChange (Present (Query 3))) (run client_env ?es s0))
             = Some (UHandle 3)"
    "promise_value (step client_env (ReferenceChange (Present (Query 3)))
        (run client_env ?es s0)) = Some 1"
    using th [THEN conjunct2, THEN conjunct2, THEN conjunct1, rule_format, OF r] t(1,2,4) h(2)
    by (simp_all del: step.simps run.simps)
  have a: "after client_env [DataWrite (VOther 8), ReferenceChange (Present (Query 3))]
             (useDatabaseRef client_env list_ref live_options)
           = Some (step client_env (ReferenceChange (Present (Query 3))) (run client_env ?es s0))"
    by (simp add: after_def s0)
  show ?thesis
    unfolding a using 1 2 by (simp add: s0)
qed

text \<open>
  C8. A bind whose reference unwraps to \<^verbatim>\<open>null\<close> or \<^verbatim>\<open>undefined\<close> resolves its promise
  with \<^verbatim>\<open>null\<close> at once: the executor's promise is fulfilled, a later \<^verbatim>\<open>reject\<close> cannot
  change that, and the two jobs fulfil \<^verbatim>\<open>newPromise\<close> with \<^verbatim>\<open>null\<close>. \<^verbatim>\<open>unbind\<close> becomes
  \<^verbatim>\<open>noop\<close>, no binder is called, and the bind writes neither \<^verbatim>\<open>pending.value\<close> nor
  \<^verbatim>\<open>shouldStartAsPending\<close>.
\<close>

theorem null_reference_bind:
  assumes "unref (reference s) = JNull \<or> unref (reference s) = JUndefined"
  shows "let k = length (promises s); s' = bindDatabaseRef env s
         in promise_value s' = Some k
            \<and> executor (promises s' ! k) = Fulfilled VNull
            \<and> executor (promises (step env (Reject k x) s') ! k) = Fulfilled VNull
            \<and> chained (promises (run env [RunCatch k, RunFinally k] s') ! k) = Fulfilled VNull
            \<and> unbind s' = Some UNoop
            \<and> effects s' = effects s
            \<and> pending_value s' = pending_value s
            \<and> shouldStartAsPending s' = shouldStartAsPending s"
  using assms
  by (simp add: bind_absent Let_def run_catch_def run_finally_def settle_executor_def
      nth_append)

text \<open>The first bind of a ref that holds null.\<close>

theorem null_reference_bind_witness:
  "promise_value (bindDatabaseRef client_env (install_watcher client_env (hydrate client_env null_ref no_options)))
     = Some 0
   \<and> promises (bindDatabaseRef client_env (install_watcher client_env (hydrate client_env null_ref no_options)))
     = [\<lparr> executor = Fulfilled VNull, caught = Pending, chained = Pending \<rparr>]
   \<and> chained (promises (run client_env [RunCatch 0, RunFinally 0]
        (bindDatabaseRef client_env (install_watcher client_env (hydrate client_env null_ref no_options)))) ! 0)
     = Fulfilled VNull
   \<and> unbind (bindDatabaseRef client_env (install_watcher client_env (hydrate client_env null_ref no_options)))
     = Some UNoop
   \<and> effects (bindDatabaseRef client_env (install_watcher client_env (hydrate client_env null_ref no_options)))
     = [CallWatch]
   \<and> pending_value (bindDatabaseRef client_env (install_watcher client_env (hydrate client_env null_ref no_options)))
     = False"
proof -
  let ?n = "install_watcher client_env (hydrate client_env null_ref no_options)"
  have n: "unref (reference ?n) = JNull \<or> unref (reference ?n) = JUndefined"
    "effects ?n = [CallWatch]" "promises ?n = []" "pending_value ?n = False"
    by (simp_all add: install_watcher_def hydrate_frame ex_defs)
  have p: "promises (bindDatabaseRef client_env ?n)
             = [\<lparr> executor = Fulfilled VNull, caught = Pending, chained = Pending \<rparr>]"
    using n by (simp add: bind_absent)
  show ?thesis
    using null_reference_bind [OF n(1), of client_env 0] n(2-) p
    by (simp add: Let_def)
qed

section \<open>Server-side rendering\<close>

lemma once_forced_bind: "once_forced s \<Longrightarrow> once_forced (bindDatabaseRef env s)"
  by (cases "unref (reference s)")
     (simp_all add: once_forced_def bind_present bind_absent)

lemma once_forced_stop: "once_forced s \<Longrightarrow> once_forced (stop r s)"
  by (simp add: once_forced_def event_defs Let_def
      split: option.split unbind_fn.split remove_fn.split stop_watcher_fn.split)

lemma once_forced_step: "once_forced s \<Longrightarrow> once_forced (step env e s)"
proof (cases e)
  case (ReferenceChange v)
  assume c: "once_forced s"
  then have "once_forced (s \<lparr> reference := Reactive v \<rparr>)"
    by (simp add: once_forced_def)
  then show ?thesis
    using c ReferenceChange by (simp add: once_forced_bind)
next
  case (DataWrite v)
  assume "once_forced s"
  then show ?thesis using DataWrite by (simp add: once_forced_def)
next
  case (Resolve k v)
  assume "once_forced s"
  then show ?thesis using Resolve by (simp add: once_forced_def chain_frame)
next
  case (Reject k v)
  assume "once_forced s"
  then show ?thesis using Reject by (simp add: once_forced_def chain_frame)
next
  case (RunCatch k)
  assume "once_forced s"
  then show ?thesis using RunCatch by (simp add: once_forced_def chain_frame)
next
  case (RunFinally k)
  assume "once_forced s"
  then show ?thesis using RunFinally by (simp add: once_forced_def chain_frame)
next
  case ScopeDispose
  assume "once_forced s"
  then have "once_forced (stop None s)" by (rule once_forced_stop)
  then have "once_forced ((stop None s) \<lparr> scope_cleanup := False \<rparr>)"
    by (simp add: once_forced_def)
  then show ?thesis using \<open>once_forced s\<close> ScopeDispose by simp
next
  case (Stop r)
  assume "once_forced s"
  then show ?thesis using Stop by (simp add: once_forced_stop)
qed

lemma once_forced_run: "once_forced s \<Longrightarrow> once_forced (run env es s)"
  by (induction es arbitrary: s) (simp_all add: once_forced_step)

lemma once_forced_set_up: "isSSR env \<Longrightarrow> once_forced (set_up env ref os)"
proof -
  assume ssr: "isSSR env"
  let ?h = "hydrate env ref (ssr_once env os)"
  have "once_forced ?h"
    using ssr by (simp add: once_forced_def hydrate_def Let_def ssr_once_def once_def)
  then have "once_forced (install_watcher env ?h)"
    by (simp add: once_forced_def install_watcher_def)
  then have "once_forced (bindDatabaseRef env (install_watcher env ?h))"
    by (rule once_forced_bind)
  then show ?thesis
    by (simp add: set_up_def once_forced_def register_scope_def register_pending_def Let_def
        split: nullable.split)
qed

lemma binder_calls_once:
  "list_all binds_once es \<Longrightarrow> a \<in> set (binder_calls es) \<Longrightarrow> once (b_options a) = Some True"
  by (induction es rule: binder_calls.induct) auto

text \<open>
  C10. During server-side rendering every call of the binder, in the call itself and in every
  rebind after it, is made with options whose \<^verbatim>\<open>once\<close> is true, whatever the caller and the
  global options say.
\<close>

theorem ssr_binds_once:
  assumes "isSSR env" and "final_state (useDatabaseRef env ref lo) = Some s0"
    and "a \<in> set (binder_calls (effects (run env es s0)))"
  shows "once (b_options a) = Some True"
proof -
  obtain ps where "s0 = (set_up env ref (Object_assign (globalDatabaseOptions env) lo))
                          \<lparr> data_props := ps \<rparr>"
    using final_state_set_up [OF assms(2)] by blast
  then have "once_forced s0"
    using once_forced_set_up [OF assms(1), of ref "Object_assign (globalDatabaseOptions env) lo"]
    by (simp add: once_forced_def)
  then have "once_forced (run env es s0)"
    by (rule once_forced_run)
  then have "list_all binds_once (effects (run env es s0))"
    by (simp add: once_forced_def)
  then show ?thesis
    using assms(3) by (rule binder_calls_once)
qed

text \<open>On the server, a caller asks for \<^verbatim>\<open>once: false\<close>; the reference changes once.\<close>

theorem ssr_binds_once_witness:
  "isSSR ssr_env \<and> once live_options = Some False
   \<and> map_option (\<lambda>s. map (\<lambda>a. once (b_options a)) (binder_calls (effects s)))
        (after ssr_env [ReferenceChange (Present (DatabaseReference 2))]
           (useDatabaseRef ssr_env query_ref live_options))
      = Some [Some True, Some True]"
proof -
  have g: "written_target ssr_env
             (Object_assign (globalDatabaseOptions ssr_env) live_options) = None"
    by (simp add: written_target_def ssr_env_def client_env_def)
  obtain s0 where s0: "final_state (useDatabaseRef ssr_env query_ref live_options) = Some s0"
    using set_up_final_state [OF g] by blast
  obtain ps where ps: "s0 = (set_up ssr_env query_ref
        (Object_assign (globalDatabaseOptions ssr_env) live_options)) \<lparr> data_props := ps \<rparr>"
    using final_state_set_up [OF s0] by blast
  define t where "t = run ssr_env [ReferenceChange (Present (DatabaseReference 2))] s0"
  have "\<exists>a b. binder_calls (effects t) = [a, b]"
    unfolding t_def ps
    by (simp add: call_defs ex_defs)
  then obtain a b where ab: "binder_calls (effects t) = [a, b]" by blast
  have ssr: "isSSR ssr_env" by (simp add: ssr_env_def)
  have "once (b_options a) = Some True" "once (b_options b) = Some True"
    using ssr_binds_once [OF ssr s0, of _ "[ReferenceChange (Present (DatabaseReference 2))]"]
      ab unfolding t_def by simp_all
  then have "map (\<lambda>a. once (b_options a)) (binder_calls (effects t)) = [Some True, Some True]"
    using ab by simp
  moreover have "after ssr_env [ReferenceChange (Present (DatabaseReference 2))]
                   (useDatabaseRef ssr_env query_ref live_options) = Some t"
    by (simp add: after_def s0 t_def)
  moreover have "once live_options = Some False"
    by (simp add: live_options_def no_options_def once_def)
  ultimately show ?thesis
    using ssr by simp
qed

section \<open>The watcher\<close>

lemma client_past_the_check:
  "written_target client_env (Object_assign (globalDatabaseOptions client_env) lo) = None"
  by (simp add: written_target_def client_env_def)

lemma dev_early_return:
  "useDatabaseRef dev_env ref (with_target used_target) = ReturnedTarget used_target"
proof -
  have "written_target dev_env
          (Object_assign (globalDatabaseOptions dev_env) (with_target used_target))
        = Some used_target"
    by (simp add: written_target_def Object_assign_def ex_defs read_defs)
  then show ?thesis by (rule early_return_final_state)
qed

text \<open>A call without a target, in a production build, returns at line 155.\<close>

lemma production_call:
  assumes "production env"
    and "target_key (Object_assign (globalDatabaseOptions env) lo) = Absent"
  shows "useDatabaseRef env ref lo
           = Returned ((set_up env ref (Object_assign (globalDatabaseOptions env) lo))
               \<lparr> data_props := fold defineProperty accessors Map.empty \<rparr>)"
proof -
  let ?os = "Object_assign (globalDatabaseOptions env) lo"
  have g: "written_target env ?os = None"
    using assms(1) by (simp add: written_target_def)
  have p: "prior_props ?os = Map.empty"
    using assms(2) by (simp add: prior_props_def target_def)
  have "defineProperties (data_props (set_up env ref ?os)) accessors
          = Inr (fold defineProperty accessors Map.empty)"
    by (simp add: set_up_frame p accessors_def redefinable_def defineProperty_def)
  then show ?thesis
    using g by (simp add: useDatabaseRef_def Let_def)
qed




section \<open>Disposal\<close>
















lemma assign_key_case: "assign_key g l = (case l of Absent \<Rightarrow> g | k \<Rightarrow> k)"
  by (cases l) simp_all




text \<open>
  A local \<^verbatim>\<open>reset\<close> key that is present and undefined shadows the global option: \<^verbatim>\<open>stop()\<close>
  then calls the handle with no reset option.
\<close>

lemma undefined_reset_shadows:
  "map_option (\<lambda>s. last (effects s))
     (after client_env [Stop None] (useDatabaseRef client_env list_ref undefined_reset))
   = Some (CallUnbind 0 None)"
proof -
  have c: "production client_env"
    "target_key (Object_assign (globalDatabaseOptions client_env) undefined_reset) = Absent"
    by (simp_all add: Object_assign_def ex_defs)
  show ?thesis
    unfolding production_call [OF c]
    by (simp add: after_def call_defs event_defs ex_defs Let_def)
qed

section \<open>Server rendering waits for the first promise\<close>

lemma prefetch_run:
  "server_prefetch s \<Longrightarrow> prefetch_promise (run env es s) = promise_value (run env es s)"
  by (simp add: prefetch_promise_def run_frame)

text \<open>
  C7 (as amended). After a call that does not leave through the development-only return of
  line 56, and whatever happens later: \<^verbatim>\<open>addPendingPromise\<close> has been called once, with the
  promise of the first bind (chain 0) and the initial reference, when that reference is
  non-null, and never otherwise; inside a scope and a component instance the callback given
  to \<^verbatim>\<open>onServerPrefetch\<close> returns the promise that is stored when it is called.
\<close>

theorem first_promise_registered:
  assumes "written_target env (Object_assign (globalDatabaseOptions env) lo) = None"
  shows "\<exists>s0. final_state (useDatabaseRef env ref lo) = Some s0
     \<and> promise_value s0 = Some 0 \<and> length (promises s0) = 1
     \<and> (\<forall>es. filter is_addPendingPromise (effects (run env es s0))
               = (case unref ref of
                    Present d \<Rightarrow> [CallAddPendingPromise (Some 0) d]
                  | _ \<Rightarrow> []))
     \<and> (getCurrentScope env \<and> getCurrentInstance env \<longrightarrow>
          CallOnServerPrefetch \<in> set (effects s0)
          \<and> (\<forall>es. prefetch_promise (run env es s0) = promise_value (run env es s0)
                   \<and> promise_value (run env es s0) \<noteq> None))"
proof -
  let ?os = "Object_assign (globalDatabaseOptions env) lo"
  obtain s0 ps where s0: "final_state (useDatabaseRef env ref lo) = Some s0"
    and ps: "s0 = (set_up env ref ?os) \<lparr> data_props := ps \<rparr>"
    using assms by (rule past_the_check)
  have p: "promise_value s0 = Some 0" and l: "length (promises s0) = 1"
    and sp: "server_prefetch s0 = (getCurrentScope env \<and> getCurrentInstance env)"
    and f: "filter is_addPendingPromise (effects s0)
              = (case unref ref of
                   Present d \<Rightarrow> [CallAddPendingPromise (Some 0) d]
                 | _ \<Rightarrow> [])"
    unfolding ps by (simp_all add: set_up_state set_up_effects)
  have 1: "filter is_addPendingPromise (effects (run env es s0))
               = (case unref ref of
                    Present d \<Rightarrow> [CallAddPendingPromise (Some 0) d]
                  | _ \<Rightarrow> [])" for es
    by (simp add: run_effects f)
  have 2: "CallOnServerPrefetch \<in> set (effects s0)"
    if "getCurrentScope env \<and> getCurrentInstance env"
    unfolding ps using that by (simp add: set_up_effects)
  have 3: "prefetch_promise (run env es s0) = promise_value (run env es s0)"
    if "getCurrentScope env \<and> getCurrentInstance env" for es
    using that sp by (simp add: prefetch_run)
  have 4: "promise_value (run env es s0) \<noteq> None" for es
    using p run_promise_value [of s0 env es] by simp
  show ?thesis
    using s0 p l 1 2 3 4 by blast
qed

text \<open>
  A ref to a list and a ref holding null, each changed to a query after the call.
\<close>

theorem first_promise_registered_witness:
  "map_option (\<lambda>s. filter is_addPendingPromise (effects s))
      (after client_env [ReferenceChange (Present (Query 3))]
         (useDatabaseRef client_env list_ref no_options))
    = Some [CallAddPendingPromise (Some 0) (DatabaseReference 7)]
   \<and> map_option prefetch_promise
      (after client_env [ReferenceChange (Present (Query 3))]
         (useDatabaseRef client_env list_ref no_options))
    = Some (Some 1)
   \<and> map_option (\<lambda>s. filter is_addPendingPromise (effects s))
      (after client_env [ReferenceChange (Present (Query 3))]
         (useDatabaseRef client_env null_ref no_options))
    = Some []"
proof -
  let ?es = "[ReferenceChange (Present (Query 3))]"
  obtain s0 where s0: "final_state (useDatabaseRef client_env list_ref no_options) = Some s0"
    and a: "\<forall>es. filter is_addPendingPromise (effects (run client_env es s0))
               = (case unref list_ref of
                    Present d \<Rightarrow> [CallAddPendingPromise (Some 0) d]
                  | _ \<Rightarrow> [])"
    and b: "getCurrentScope client_env \<and> getCurrentInstance client_env \<longrightarrow>
          CallOnServerPrefetch \<in> set (effects s0)
          \<and> (\<forall>es. prefetch_promise (run client_env es s0) = promise_value (run client_env es s0)
                   \<and> promise_value (run client_env es s0) \<noteq> None)"
    using first_promise_registered [where env = client_env and lo = no_options
        and ref = list_ref, OF client_past_the_check] by blast
  obtain n0 where n0: "final_state (useDatabaseRef client_env null_ref no_options) = Some n0"
    and c: "\<forall>es. filter is_addPendingPromise (effects (run client_env es n0))
               = (case unref null_ref of
                    Present d \<Rightarrow> [CallAddPendingPromise (Some 0) d]
                  | _ \<Rightarrow> [])"
    using first_promise_registered [where env = client_env and lo = no_options
        and ref = null_ref, OF client_past_the_check] by blast
  obtain ps where ps: "s0 = (set_up client_env list_ref
        (Object_assign (globalDatabaseOptions client_env) no_options)) \<lparr> data_props := ps \<rparr>"
    using final_state_set_up [OF s0] by blast
  have v: "promise_value (run client_env ?es s0) = Some 1"
    unfolding ps by (simp add: call_defs ex_defs Let_def)
  have e: "getCurrentScope client_env \<and> getCurrentInstance client_env"
    by (simp add: client_env_def)
  have 1: "filter is_addPendingPromise (effects (run client_env ?es s0))
             = [CallAddPendingPromise (Some 0) (DatabaseReference 7)]"
    using spec [OF a, of ?es] by (simp add: list_ref_def del: run.simps)
  have "prefetch_promise (run client_env ?es s0) = promise_value (run client_env ?es s0)"
    using b e by blast
  then have 2: "prefetch_promise (run client_env ?es s0) = Some 1"
    using v by simp
  have 3: "filter is_addPendingPromise (effects (run client_env ?es n0)) = []"
    using spec [OF c, of ?es] by (simp add: null_ref_def del: run.simps)
  have 4: "after client_env ?es (useDatabaseRef client_env list_ref no_options)
             = Some (run client_env ?es s0)"
    "after client_env ?es (useDatabaseRef client_env null_ref no_options)
             = Some (run client_env ?es n0)"
    by (simp_all add: after_def s0 n0)
  show ?thesis
    unfolding 4 using 1 2 3 by simp
qed

text \<open>
  C7 as stated fails when line 56 returns: the call happens inside a scope and a component
  instance, yet \<^verbatim>\<open>onServerPrefetch\<close> is never called.
\<close>

theorem early_return_registers_no_prefetch:
  "getCurrentScope dev_env \<and> getCurrentInstance dev_env
   \<and> CallOnServerPrefetch
        \<notin> set (effects_of (useDatabaseRef dev_env list_ref (with_target used_target)))
   \<and> filter is_addPendingPromise
        (effects_of (useDatabaseRef dev_env list_ref (with_target used_target))) = []"
proof -
  have "getCurrentScope dev_env" "getCurrentInstance dev_env"
    by (simp_all add: dev_env_def client_env_def)
  then show ?thesis
    by (simp add: dev_early_return)
qed

section \<open>The pending flag at a bind\<close>

lemma bind_pending:
  "unref (reference s) = Present r \<Longrightarrow>
   pending_value (bindDatabaseRef env s) = shouldStartAsPending s
   \<and> shouldStartAsPending (bindDatabaseRef env s)"
  by (simp add: bind_present)

text \<open>
  C9 at an input where the code departs from it. The reference is a ref that holds null and
  the caller's target holds 5, so that \<^verbatim>\<open>data.value\<close> is 5 after hydration and
  \<^verbatim>\<open>shouldStartAsPending\<close> starts false. The first bind returns at line 90, before line 96
  raises the flag. When the reference then changes to a query, the rebind (chain 1, the only
  binder call) writes \<^verbatim>\<open>pending.value = false\<close>.
\<close>

theorem rebind_after_null_keeps_pending_false:
  "map_option pending_value
      (after client_env [ReferenceChange (Present (Query 3))]
         (useDatabaseRef client_env null_ref (with_target new_target))) = Some False
   \<and> map_option promise_value
      (after client_env [ReferenceChange (Present (Query 3))]
         (useDatabaseRef client_env null_ref (with_target new_target))) = Some (Some 1)
   \<and> map_option (\<lambda>s. map b_reference (binder_calls (effects s)))
      (after client_env [ReferenceChange (Present (Query 3))]
         (useDatabaseRef client_env null_ref (with_target new_target))) = Some [Query 3]"
proof -
  let ?os = "Object_assign (globalDatabaseOptions client_env) (with_target new_target)"
  have p: "prior_props ?os = Map.empty"
    by (simp add: prior_props_def Object_assign_def read_defs ex_defs)
  have d: "defineProperties (data_props (set_up client_env null_ref ?os)) accessors
             = Inr (fold defineProperty accessors Map.empty)"
    by (simp add: set_up_frame p accessors_def redefinable_def defineProperty_def)
  have u: "useDatabaseRef client_env null_ref (with_target new_target)
             = Returned ((set_up client_env null_ref ?os)
                 \<lparr> data_props := fold defineProperty accessors Map.empty \<rparr>)"
    using client_past_the_check [of "with_target new_target"] d
    by (simp add: useDatabaseRef_def Let_def)
  show ?thesis
    unfolding u by (simp add: after_def call_defs ex_defs Let_def)
qed

end
